theory Spec2Isabelle
  imports Complex_Main "HOL-Library.Sublist"
begin

section \<open>Strings as the log parser uses them\<close>

text \<open>
  Model names, log lines and file paths are \<open>string\<close>s (lists of 8-bit characters).
  \<open>toLowerCase\<close> maps the letters \<open>A\<close>..\<open>Z\<close> to \<open>a\<close>..\<open>z\<close> and leaves every other
  character alone (text outside ASCII is not modelled); \<open>includes\<close>, \<open>split\<close> on a
  one-character separator, \<open>slice(0, n)\<close> and \<open>join\<close> follow \<open>String.prototype\<close> and
  \<open>Array.prototype\<close>.
\<close>

definition upper_to_lower :: "(char \<times> char) list" where
  "upper_to_lower = zip ''ABCDEFGHIJKLMNOPQRSTUVWXYZ'' ''abcdefghijklmnopqrstuvwxyz''"

definition to_lower_char :: "char \<Rightarrow> char" where
  "to_lower_char c = (case map_of upper_to_lower c of None \<Rightarrow> c | Some l \<Rightarrow> l)"

definition toLowerCase :: "string \<Rightarrow> string" where
  "toLowerCase s = map to_lower_char s"

fun includes_str :: "string \<Rightarrow> string \<Rightarrow> bool" where
  "includes_str [] sub = (sub = [])"
| "includes_str (c # cs) sub = (prefix sub (c # cs) \<or> includes_str cs sub)"

fun split_on :: "char \<Rightarrow> string \<Rightarrow> string list" where
  "split_on sep [] = [[]]"
| "split_on sep (c # cs) =
     (if c = sep then [] # split_on sep cs
      else (case split_on sep cs of
              [] \<Rightarrow> [[c]]
            | w # ws \<Rightarrow> (c # w) # ws))"

fun join_with :: "char \<Rightarrow> string list \<Rightarrow> string" where
  "join_with sep [] = []"
| "join_with sep [w] = w"
| "join_with sep (w # v # ws) = w @ sep # join_with sep (v # ws)"

section \<open>JavaScript values\<close>

text \<open>
  A JavaScript number is a double: not-a-number, an infinity, or a finite value. Finite
  values are carried as exact rationals; a finite result that reaches the overflow
  threshold of the double format (\<open>2^1024 - 2^970\<close>) becomes an infinity, as in IEEE 754.
  Rounding of finite results to 53 bits and the sign of zero are not modelled.
\<close>

datatype jsnum = NaN | PInf | NInf | Fin rat

definition dbl_overflow :: rat where
  "dbl_overflow = 2 ^ 1024 - 2 ^ 970"

definition clip :: "rat \<Rightarrow> jsnum" where
  "clip r = (if dbl_overflow \<le> r then PInf else if r \<le> - dbl_overflow then NInf else Fin r)"

fun num_neg :: "jsnum \<Rightarrow> jsnum" where
  "num_neg NaN = NaN"
| "num_neg PInf = NInf"
| "num_neg NInf = PInf"
| "num_neg (Fin r) = Fin (- r)"

fun num_add :: "jsnum \<Rightarrow> jsnum \<Rightarrow> jsnum" where
  "num_add NaN b = NaN"
| "num_add a NaN = NaN"
| "num_add PInf NInf = NaN"
| "num_add NInf PInf = NaN"
| "num_add PInf b = PInf"
| "num_add NInf b = NInf"
| "num_add a PInf = PInf"
| "num_add a NInf = NInf"
| "num_add (Fin x) (Fin y) = clip (x + y)"

definition num_sub :: "jsnum \<Rightarrow> jsnum \<Rightarrow> jsnum" where
  "num_sub a b = num_add a (num_neg b)"

fun num_lt :: "jsnum \<Rightarrow> jsnum \<Rightarrow> bool" where
  "num_lt NaN b = False"
| "num_lt a NaN = False"
| "num_lt PInf b = False"
| "num_lt a NInf = False"
| "num_lt NInf b = True"
| "num_lt a PInf = True"
| "num_lt (Fin x) (Fin y) = (x < y)"

fun num_eq :: "jsnum \<Rightarrow> jsnum \<Rightarrow> bool" where
  "num_eq NaN b = False"
| "num_eq a NaN = False"
| "num_eq a b = (a = b)"

definition num_ge :: "jsnum \<Rightarrow> jsnum \<Rightarrow> bool" where
  "num_ge a b = (num_lt b a \<or> num_eq a b)"

fun num_sign :: "jsnum \<Rightarrow> int" where
  "num_sign NaN = 0"
| "num_sign PInf = 1"
| "num_sign NInf = - 1"
| "num_sign (Fin r) = sgn \<lfloor>sgn r\<rfloor>"

fun num_mul :: "jsnum \<Rightarrow> jsnum \<Rightarrow> jsnum" where
  "num_mul NaN b = NaN"
| "num_mul a NaN = NaN"
| "num_mul (Fin x) (Fin y) = clip (x * y)"
| "num_mul a b =
     (let s = num_sign a * num_sign b in if s = 0 then NaN else if 0 < s then PInf else NInf)"

fun num_div :: "jsnum \<Rightarrow> jsnum \<Rightarrow> jsnum" where
  "num_div NaN b = NaN"
| "num_div a NaN = NaN"
| "num_div (Fin x) (Fin y) =
     (if y = 0 then (if x = 0 then NaN else if 0 < x then PInf else NInf) else clip (x / y))"
| "num_div (Fin x) b = Fin 0"
| "num_div a (Fin y) = (if 0 \<le> num_sign a * num_sign (Fin y) then a else num_neg a)"
| "num_div a b = NaN"

text \<open>\<open>Number.isFinite\<close>, \<open>Math.floor\<close>, \<open>Math.max\<close>, \<open>Math.round\<close> and the truthiness of a number.\<close>

fun num_isFinite :: "jsnum \<Rightarrow> bool" where
  "num_isFinite (Fin r) = True"
| "num_isFinite n = False"

fun math_floor :: "jsnum \<Rightarrow> jsnum" where
  "math_floor (Fin r) = Fin (of_int \<lfloor>r\<rfloor>)"
| "math_floor n = n"

fun math_round :: "jsnum \<Rightarrow> jsnum" where
  "math_round (Fin r) = Fin (of_int \<lfloor>r + 1 / 2\<rfloor>)"
| "math_round n = n"

fun math_max :: "jsnum \<Rightarrow> jsnum \<Rightarrow> jsnum" where
  "math_max NaN b = NaN"
| "math_max a NaN = NaN"
| "math_max a b = (if num_lt a b then b else a)"

fun num_truthy :: "jsnum \<Rightarrow> bool" where
  "num_truthy NaN = False"
| "num_truthy (Fin r) = (r \<noteq> 0)"
| "num_truthy n = True"

text \<open>
  The values \<open>JSON.parse\<close> can return, and \<open>undefined\<close> for a missing property. An object
  is its list of own properties; a lookup takes the first entry of a key.
\<close>

datatype jsval =
    JUndefined
  | JNull
  | JBool bool
  | JNum jsnum
  | JStr string
  | JArr "jsval list"
  | JObj "(string \<times> jsval) list"

text \<open>A \<open>Date\<close> object: its time value in milliseconds since the epoch, or an invalid date.\<close>

datatype jsdate = InvalidDate | DateAt int

datatype js_error = SyntaxError | TypeError | OtherError

datatype 'a outcome = Returned 'a | Thrown js_error

text \<open>
  The built-in functions of the host that the code calls and that are not written out
  here. Every definition below takes them as the parameter \<open>B\<close>, and every theorem holds
  for all of them unless it says otherwise.
  \<^item> \<open>json_parse\<close>: \<open>JSON.parse\<close> on a line; \<open>None\<close> when it throws a SyntaxError.
  \<^item> \<open>date_parse\<close>: \<open>Date.parse\<close> on a string; \<open>None\<close> for an invalid date.
  \<^item> \<open>str_to_num\<close>, \<open>num_to_str\<close>: the conversions between strings and numbers.
  \<^item> \<open>obj_to_str\<close>: the string an array or object converts to as a primitive.
  \<^item> \<open>locale_compare\<close>: \<open>String.prototype.localeCompare\<close> in the host's locale.
\<close>

record builtins =
  json_parse :: "string \<Rightarrow> jsval option"
  date_parse :: "string \<Rightarrow> int option"
  str_to_num :: "string \<Rightarrow> jsnum"
  num_to_str :: "jsnum \<Rightarrow> string"
  obj_to_str :: "jsval \<Rightarrow> string"
  locale_compare :: "string \<Rightarrow> string \<Rightarrow> int"

fun truthy :: "jsval \<Rightarrow> bool" where
  "truthy JUndefined = False"
| "truthy JNull = False"
| "truthy (JBool b) = b"
| "truthy (JNum n) = num_truthy n"
| "truthy (JStr s) = (s \<noteq> [])"
| "truthy (JArr xs) = True"
| "truthy (JObj kvs) = True"

text \<open>\<open>a || b\<close> on values.\<close>

definition js_or :: "jsval \<Rightarrow> jsval \<Rightarrow> jsval" where
  "js_or a b = (if truthy a then a else b)"

text \<open>
  \<open>v.k\<close> throws a TypeError on \<open>null\<close> and \<open>undefined\<close>. None of the property names the
  parsers read is a property of a string, number, boolean or array, or of
  \<open>Object.prototype\<close>, so on those values and on a missing key the result is \<open>undefined\<close>.
  \<open>v?.k\<close> is \<open>undefined\<close> on \<open>null\<close> and \<open>undefined\<close>.
\<close>

fun get_prop :: "jsval \<Rightarrow> string \<Rightarrow> js_error + jsval" where
  "get_prop JUndefined k = Inl TypeError"
| "get_prop JNull k = Inl TypeError"
| "get_prop (JObj kvs) k = Inr (case map_of kvs k of None \<Rightarrow> JUndefined | Some v \<Rightarrow> v)"
| "get_prop v k = Inr JUndefined"

fun opt_prop :: "jsval \<Rightarrow> string \<Rightarrow> jsval" where
  "opt_prop (JObj kvs) k = (case map_of kvs k of None \<Rightarrow> JUndefined | Some v \<Rightarrow> v)"
| "opt_prop v k = JUndefined"

text \<open>\<open>ToPrimitive\<close>, \<open>ToNumber\<close> (\<open>Number(v)\<close>) and \<open>ToString\<close>.\<close>

fun to_primitive :: "builtins \<Rightarrow> jsval \<Rightarrow> jsval" where
  "to_primitive B (JArr xs) = JStr (obj_to_str B (JArr xs))"
| "to_primitive B (JObj kvs) = JStr (obj_to_str B (JObj kvs))"
| "to_primitive B v = v"

fun to_number :: "builtins \<Rightarrow> jsval \<Rightarrow> jsnum" where
  "to_number B JUndefined = NaN"
| "to_number B JNull = Fin 0"
| "to_number B (JBool b) = Fin (if b then 1 else 0)"
| "to_number B (JNum n) = n"
| "to_number B (JStr s) = str_to_num B s"
| "to_number B v = str_to_num B (obj_to_str B v)"

fun to_string :: "builtins \<Rightarrow> jsval \<Rightarrow> string" where
  "to_string B JUndefined = ''undefined''"
| "to_string B JNull = ''null''"
| "to_string B (JBool b) = (if b then ''true'' else ''false'')"
| "to_string B (JNum n) = num_to_str B n"
| "to_string B (JStr s) = s"
| "to_string B v = obj_to_str B v"

fun is_string :: "jsval \<Rightarrow> bool" where
  "is_string (JStr s) = True"
| "is_string v = False"

text \<open>\<open>a + b\<close>: concatenation as soon as one primitive is a string, addition otherwise.\<close>

definition js_plus :: "builtins \<Rightarrow> jsval \<Rightarrow> jsval \<Rightarrow> jsval" where
  "js_plus B a b =
     (let pa = to_primitive B a; pb = to_primitive B b in
      if is_string pa \<or> is_string pb then JStr (to_string B pa @ to_string B pb)
      else JNum (num_add (to_number B pa) (to_number B pb)))"

text \<open>
  \<open>new Date(v)\<close>: a string is parsed, any other primitive is converted to a number and
  clipped to the range of time values (\<open>8.64e15\<close> milliseconds either side of the epoch).
\<close>

fun time_clip :: "jsnum \<Rightarrow> jsdate" where
  "time_clip (Fin r) =
     (if \<bar>r\<bar> \<le> 8640000000000000 then DateAt (if 0 \<le> r then \<lfloor>r\<rfloor> else \<lceil>r\<rceil>) else InvalidDate)"
| "time_clip n = InvalidDate"

definition new_Date :: "builtins \<Rightarrow> jsval \<Rightarrow> jsdate" where
  "new_Date B v =
     (case to_primitive B v of
        JStr s \<Rightarrow> (case date_parse B s of None \<Rightarrow> InvalidDate | Some t \<Rightarrow> DateAt t)
      | p \<Rightarrow> time_clip (to_number B p))"

section \<open>Model-name normalisation (logParser.js)\<close>

text \<open>
  \<^verbatim>\<open>
  function normalizeModelName(model) {
    if (!model || typeof model !== 'string') { return 'unknown'; }
    const lowerModel = model.toLowerCase();
    if (lowerModel.includes('claude-opus') || lowerModel.includes('opus')) { return 'opus'; }
    ...
    if (lowerModel.includes('mistral')) { return 'mistral'; }
    return lowerModel.split(':')[0].split('-').slice(0, 2).join('-');
  }
  \<close>
  The argument is any value: \<open>data.message.model || 'unknown'\<close> of a parsed line.
\<close>

definition fallbackName :: "string \<Rightarrow> string" where
  "fallbackName lowerModel =
     join_with (CHR ''-'') (take 2 (split_on (CHR ''-'') (hd (split_on (CHR '':'') lowerModel))))"

definition normalizeModelName :: "jsval \<Rightarrow> string" where
  "normalizeModelName model =
     (case model of
        JStr m \<Rightarrow>
          if \<not> truthy model then ''unknown''
          else let lowerModel = toLowerCase m in
            if includes_str lowerModel ''claude-opus'' \<or> includes_str lowerModel ''opus'' then ''opus''
            else if includes_str lowerModel ''claude-sonnet'' \<or> includes_str lowerModel ''sonnet''
              then ''sonnet''
            else if includes_str lowerModel ''claude-haiku'' \<or> includes_str lowerModel ''haiku''
              then ''haiku''
            else if includes_str lowerModel ''claude'' then ''claude''
            else if includes_str lowerModel ''gpt-5'' \<or> includes_str lowerModel ''gpt5'' then ''gpt-5''
            else if includes_str lowerModel ''gpt-4o'' then ''gpt-4o''
            else if includes_str lowerModel ''gpt-4'' then ''gpt-4''
            else if includes_str lowerModel ''gpt-3.5'' \<or> includes_str lowerModel ''gpt3''
              then ''gpt-3.5''
            else if includes_str lowerModel ''kimi'' then ''kimi''
            else if includes_str lowerModel ''deepseek'' then ''deepseek''
            else if includes_str lowerModel ''gemini'' then ''gemini''
            else if includes_str lowerModel ''qwen'' then ''qwen''
            else if includes_str lowerModel ''yi'' then ''yi''
            else if includes_str lowerModel ''llama'' then ''llama''
            else if includes_str lowerModel ''mistral'' then ''mistral''
            else fallbackName lowerModel
      | _ \<Rightarrow> ''unknown'')"

section \<open>Log-line parsers (logParser.js)\<close>

text \<open>
  A parsed Claude record keeps whatever the line held in its token fields
  (\<open>usage.input_tokens || 0\<close> is the field itself when it is truthy). The timestamp is
  \<open>null\<close> (\<open>None\<close>) or a \<open>Date\<close>, which may be invalid. The field \<open>output\<close> is named
  \<open>outputTokens\<close> here.
\<close>

record UsageRecord =
  timestamp :: "jsdate option"
  model :: string
  input :: jsval
  outputTokens :: jsval
  cacheRead :: jsval
  cacheCreate :: jsval

record CodexSnapshot =
  snapTimestamp :: "jsdate option"
  snapModel :: string
  inputTotal :: jsnum
  outputTotal :: jsnum
  cacheReadTotal :: jsnum
  totalTokens :: jsnum

text \<open>\<open>try { ... } catch (error) { return null }\<close> around a body that returns or throws.\<close>

definition catch_null :: "js_error + 'a option \<Rightarrow> 'a option outcome" where
  "catch_null body = (case body of Inl e \<Rightarrow> Returned None | Inr r \<Rightarrow> Returned r)"

definition json_parse_or_throw :: "builtins \<Rightarrow> string \<Rightarrow> js_error + jsval" where
  "json_parse_or_throw B line = (case json_parse B line of None \<Rightarrow> Inl SyntaxError | Some v \<Rightarrow> Inr v)"

definition date_or_null :: "builtins \<Rightarrow> jsval \<Rightarrow> jsdate option" where
  "date_or_null B ts = (if truthy ts then Some (new_Date B ts) else None)"

text \<open>Sequencing of steps that may throw: the first exception ends the body.\<close>

definition and_then :: "js_error + 'a \<Rightarrow> ('a \<Rightarrow> js_error + 'b) \<Rightarrow> js_error + 'b" where
  "and_then m f = (case m of Inl e \<Rightarrow> Inl e | Inr v \<Rightarrow> f v)"

text \<open>\<open>a.k || b.k'\<close>: the second property is read only when the first is falsy.\<close>

definition prop_or_prop :: "jsval \<Rightarrow> string \<Rightarrow> jsval \<Rightarrow> string \<Rightarrow> js_error + jsval" where
  "prop_or_prop a k b k' =
     and_then (get_prop a k) (\<lambda>v. if truthy v then Inr v else get_prop b k')"

text \<open>
  \<^verbatim>\<open>
  export function parseClaudeLog(line) {
    try {
      const data = JSON.parse(line);
      if (!data.message?.usage) { return null; }
      const usage = data.message.usage;
      const timestamp = data.timestamp || data.message.timestamp;
      let model = data.message.model || 'unknown';
      model = normalizeModelName(model);
      return {
        timestamp: timestamp ? new Date(timestamp) : null,
        model,
        input: usage.input_tokens || 0,
        output: usage.output_tokens || 0,
        cacheRead: usage.cache_read_input_tokens || usage.cache_read_tokens || 0,
        cacheCreate: usage.cache_creation_input_tokens || usage.cache_creation_tokens || 0,
      };
    } catch (error) { return null; }
  }
  \<close>
  The body is the part inside \<open>try\<close>; the two Codex parsers have the same shape.
\<close>

definition parseClaudeLog_body :: "builtins \<Rightarrow> string \<Rightarrow> js_error + UsageRecord option" where
  "parseClaudeLog_body B line =
     and_then (json_parse_or_throw B line) (\<lambda>data.
     and_then (get_prop data ''message'') (\<lambda>message.
     if \<not> truthy (opt_prop message ''usage'') then Inr None
     else
     and_then (get_prop message ''usage'') (\<lambda>usage.
     and_then (prop_or_prop data ''timestamp'' message ''timestamp'') (\<lambda>ts.
     and_then (get_prop message ''model'') (\<lambda>m.
     and_then (get_prop usage ''input_tokens'') (\<lambda>inp.
     and_then (get_prop usage ''output_tokens'') (\<lambda>outp.
     and_then (prop_or_prop usage ''cache_read_input_tokens'' usage ''cache_read_tokens'') (\<lambda>cr.
     and_then (prop_or_prop usage ''cache_creation_input_tokens'' usage ''cache_creation_tokens'')
       (\<lambda>cc.
       Inr (Some \<lparr> timestamp = date_or_null B ts,
                   model = normalizeModelName (js_or m (JStr ''unknown'')),
                   input = js_or inp (JNum (Fin 0)),
                   outputTokens = js_or outp (JNum (Fin 0)),
                   cacheRead = js_or cr (JNum (Fin 0)),
                   cacheCreate = js_or cc (JNum (Fin 0)) \<rparr>))))))))))"

definition parseClaudeLog :: "builtins \<Rightarrow> string \<Rightarrow> UsageRecord option outcome" where
  "parseClaudeLog B line = catch_null (parseClaudeLog_body B line)"

text \<open>
  The guard shared by the two Codex parsers:
  \<open>data.type !== 'event_msg' || data.payload?.type !== 'token_count'\<close>.
\<close>

definition not_token_count :: "jsval \<Rightarrow> js_error + bool" where
  "not_token_count data =
     and_then (get_prop data ''type'') (\<lambda>ty.
     if ty \<noteq> JStr ''event_msg'' then Inr True
     else and_then (get_prop data ''payload'') (\<lambda>payload.
       Inr (opt_prop payload ''type'' \<noteq> JStr ''token_count'')))"

definition parseCodexLog_body :: "builtins \<Rightarrow> string \<Rightarrow> js_error + UsageRecord option" where
  "parseCodexLog_body B line =
     and_then (json_parse_or_throw B line) (\<lambda>data.
     and_then (not_token_count data) (\<lambda>skip.
     if skip then Inr None
     else
     and_then (get_prop data ''payload'') (\<lambda>payload.
     and_then (get_prop payload ''info'') (\<lambda>info.
     if \<not> truthy info then Inr None
     else
     and_then (prop_or_prop info ''last_token_usage'' info ''total_token_usage'') (\<lambda>usage.
     if \<not> truthy usage then Inr None
     else
     and_then (get_prop data ''timestamp'') (\<lambda>ts.
     and_then (get_prop usage ''input_tokens'') (\<lambda>inp.
     and_then (get_prop usage ''output_tokens'') (\<lambda>outp.
     and_then (get_prop usage ''cached_input_tokens'') (\<lambda>cr.
       Inr (Some \<lparr> timestamp = date_or_null B ts,
                   model = ''codex'',
                   input = js_or inp (JNum (Fin 0)),
                   outputTokens = js_or outp (JNum (Fin 0)),
                   cacheRead = js_or cr (JNum (Fin 0)),
                   cacheCreate = JNum (Fin 0) \<rparr>))))))))))"

definition parseCodexLog :: "builtins \<Rightarrow> string \<Rightarrow> UsageRecord option outcome" where
  "parseCodexLog B line = catch_null (parseCodexLog_body B line)"

text \<open>
  \<^verbatim>\<open>
  function toSafeInt(value) {
    const parsed = Number(value);
    if (!Number.isFinite(parsed)) { return 0; }
    return Math.max(0, Math.floor(parsed));
  }
  \<close>
\<close>

definition toSafeInt :: "builtins \<Rightarrow> jsval \<Rightarrow> jsnum" where
  "toSafeInt B v =
     (let parsed = to_number B v in
      if \<not> num_isFinite parsed then Fin 0 else math_max (Fin 0) (math_floor parsed))"

definition parseCodexTokenSnapshot_body ::
    "builtins \<Rightarrow> string \<Rightarrow> js_error + CodexSnapshot option" where
  "parseCodexTokenSnapshot_body B line =
     and_then (json_parse_or_throw B line) (\<lambda>data.
     and_then (not_token_count data) (\<lambda>skip.
     if skip then Inr None
     else
     and_then (get_prop data ''payload'') (\<lambda>payload.
     and_then (get_prop payload ''info'') (\<lambda>info.
     if \<not> truthy (opt_prop info ''total_token_usage'') then Inr None
     else
     and_then (get_prop info ''total_token_usage'') (\<lambda>totalUsage.
     and_then (get_prop totalUsage ''input_tokens'') (\<lambda>inp.
     and_then (get_prop totalUsage ''output_tokens'') (\<lambda>outp.
     and_then (get_prop totalUsage ''cached_input_tokens'') (\<lambda>cr.
     and_then (get_prop totalUsage ''total_tokens'') (\<lambda>tt.
     and_then (get_prop data ''timestamp'') (\<lambda>ts.
       (let inT = toSafeInt B inp;
            outT = toSafeInt B outp;
            crT = toSafeInt B cr;
            tot = (if num_truthy (toSafeInt B tt) then toSafeInt B tt
                   else num_add (num_add inT outT) crT)
        in Inr (Some \<lparr> snapTimestamp = date_or_null B ts,
                        snapModel = ''codex'',
                        inputTotal = inT,
                        outputTotal = outT,
                        cacheReadTotal = crT,
                        totalTokens = tot \<rparr>))))))))))))"

definition parseCodexTokenSnapshot :: "builtins \<Rightarrow> string \<Rightarrow> CodexSnapshot option outcome" where
  "parseCodexTokenSnapshot B line = catch_null (parseCodexTokenSnapshot_body B line)"

text \<open>\<open>calculateTotalTokens\<close>: the four fields added left to right.\<close>

definition calculateTotalTokens :: "builtins \<Rightarrow> UsageRecord \<Rightarrow> jsval" where
  "calculateTotalTokens B r =
     js_plus B (js_plus B (js_plus B (input r) (outputTokens r)) (cacheRead r)) (cacheCreate r)"

text \<open>No rule of the ordered list matches: the name goes to the fallback.\<close>

definition no_rule :: "string \<Rightarrow> bool" where
  "no_rule l = (\<not> (includes_str l ''claude-opus'' \<or> includes_str l ''opus''
     \<or> includes_str l ''claude-sonnet'' \<or> includes_str l ''sonnet''
     \<or> includes_str l ''claude-haiku'' \<or> includes_str l ''haiku''
     \<or> includes_str l ''claude'' \<or> includes_str l ''gpt-5'' \<or> includes_str l ''gpt5''
     \<or> includes_str l ''gpt-4o'' \<or> includes_str l ''gpt-4'' \<or> includes_str l ''gpt-3.5''
     \<or> includes_str l ''gpt3'' \<or> includes_str l ''kimi'' \<or> includes_str l ''deepseek''
     \<or> includes_str l ''gemini'' \<or> includes_str l ''qwen'' \<or> includes_str l ''yi''
     \<or> includes_str l ''llama'' \<or> includes_str l ''mistral''))"


section \<open>Beijing civil time (usageAggregator.js, UsageMonitorPage.jsx)\<close>

text \<open>
  An instant is a time value: milliseconds since the epoch, an \<open>int\<close>. The formatter
  \<open>Intl.DateTimeFormat('en-CA', {timeZone: 'Asia/Shanghai', ...})\<close> gives the parts of the
  civil date and time eight hours ahead of UTC. The civil date of a day number (days since
  1970-01-01) and the day number of a civil date follow the proleptic Gregorian calendar.
\<close>

definition ms_per_day :: int where
  "ms_per_day = 86400000"

definition beijing_offset :: int where
  "beijing_offset = 28800000"

definition civil_from_days :: "int \<Rightarrow> int \<times> int \<times> int" where
  "civil_from_days z0 =
     (let z = z0 + 719468;
          era = z div 146097;
          doe = z mod 146097;
          yoe = (doe - doe div 1460 + doe div 36524 - doe div 146096) div 365;
          doy = doe - (365 * yoe + yoe div 4 - yoe div 100);
          mp = (5 * doy + 2) div 153;
          d = doy - (153 * mp + 2) div 5 + 1;
          m = (if mp < 10 then mp + 3 else mp - 9);
          y = yoe + era * 400
      in (if m \<le> 2 then y + 1 else y, m, d))"

definition days_from_civil :: "int \<Rightarrow> int \<Rightarrow> int \<Rightarrow> int" where
  "days_from_civil y0 m d =
     (let y = (if m \<le> 2 then y0 - 1 else y0);
          era = y div 400;
          yoe = y mod 400;
          doy = (153 * (if 2 < m then m - 3 else m + 9) + 2) div 5 + d - 1;
          doe = yoe * 365 + yoe div 4 - yoe div 100 + doy
      in era * 146097 + doe - 719468)"

text \<open>
  The instant of the civil time \<open>y-m-d hh:mm:ss\<close> in Beijing, that is the time value of
  \<open>new Date('y-m-dThh:mm:ss+08:00')\<close>.
\<close>

definition beijing_time :: "int \<Rightarrow> int \<Rightarrow> int \<Rightarrow> int \<Rightarrow> int \<Rightarrow> int \<Rightarrow> int" where
  "beijing_time y m d hh mm ss =
     days_from_civil y m d * ms_per_day + (hh * 3600 + mm * 60 + ss) * 1000 - beijing_offset"

definition utc_time :: "int \<Rightarrow> int \<Rightarrow> int \<Rightarrow> int \<Rightarrow> int \<Rightarrow> int \<Rightarrow> int" where
  "utc_time y m d hh mm ss =
     days_from_civil y m d * ms_per_day + (hh * 3600 + mm * 60 + ss) * 1000"

definition beijing_day_index :: "int \<Rightarrow> int" where
  "beijing_day_index t = (t + beijing_offset) div ms_per_day"

text \<open>\<open>getBeijingDateParts\<close>: year, month and day of the Beijing civil date of an instant.\<close>

definition getBeijingDateParts :: "int \<Rightarrow> int \<times> int \<times> int" where
  "getBeijingDateParts date = civil_from_days (beijing_day_index date)"

text \<open>
  \<open>new Date(`${year}-${month}-${day}T00:00:00+08:00`)\<close> for the parts of an instant: the
  string names the Beijing civil day of the instant, and parsing it gives that day's
  midnight at \<open>+08:00\<close>. The model takes the midnight of the day number directly, which is
  what formatting and parsing compose to for the four-digit years the string can hold.
\<close>

definition beijing_day_start :: "int \<Rightarrow> int" where
  "beijing_day_start date = beijing_day_index date * ms_per_day - beijing_offset"

text \<open>
  \<open>getBeijingTimeWindow\<close>, with the current instant \<open>now\<close> (\<open>new Date()\<close>) as a parameter.
  \<open>setUTCDate(getUTCDate() - n)\<close> moves an instant back by \<open>n\<close> days of 86400000 ms.
  Any period other than \<open>week\<close> and \<open>month\<close> takes the window of \<open>today\<close>.
\<close>

text \<open>
  \<^verbatim>\<open>
  const todayStart = new Date(`${year}-${month}-${day}T00:00:00+08:00`);
  const start = new Date(todayStart);
  let end = new Date(now);
  switch (period) {
    case 'today': break;
    case 'week': start.setUTCDate(start.getUTCDate() - 7); end = new Date(todayStart); break;
    case 'month': start.setUTCDate(start.getUTCDate() - 30); end = new Date(todayStart); break;
    default: break;
  }
  return { start, end };
  \<close>
\<close>

definition getBeijingTimeWindow :: "int \<Rightarrow> string \<Rightarrow> int \<times> int" where
  "getBeijingTimeWindow now period =
     (let todayStart = beijing_day_start now in
      if period = ''today'' then (todayStart, now)
      else if period = ''week'' then (todayStart - 7 * ms_per_day, todayStart)
      else if period = ''month'' then (todayStart - 30 * ms_per_day, todayStart)
      else (todayStart, now))"

text \<open>
  How a timestamp enters \<open>>=\<close>, \<open><\<close> and \<open>>\<close> against a \<open>Date\<close>: \<open>null\<close> converts to the
  number 0, a \<open>Date\<close> to its time value, an invalid \<open>Date\<close> to \<open>NaN\<close>.
\<close>

fun ts_number :: "jsdate option \<Rightarrow> jsnum" where
  "ts_number None = Fin 0"
| "ts_number (Some InvalidDate) = NaN"
| "ts_number (Some (DateAt t)) = Fin (of_int t)"

text \<open>\<open>ts >= start && ts < end\<close>, the half-open window check of both scanners.\<close>

definition in_window :: "int \<Rightarrow> int \<Rightarrow> jsdate option \<Rightarrow> bool" where
  "in_window start end' ts =
     (num_ge (ts_number ts) (Fin (of_int start)) \<and> num_lt (ts_number ts) (Fin (of_int end')))"

text \<open>Decimal rendering of the date parts: the year as it is, month and day on two digits.\<close>

definition digit_char :: "nat \<Rightarrow> char" where
  "digit_char n = (''0123456789'' ! (n mod 10))"

fun show_nat_fuel :: "nat \<Rightarrow> nat \<Rightarrow> string" where
  "show_nat_fuel 0 n = []"
| "show_nat_fuel (Suc f) n =
     (if n < 10 then [digit_char n] else show_nat_fuel f (n div 10) @ [digit_char n])"

definition show_nat :: "nat \<Rightarrow> string" where
  "show_nat n = show_nat_fuel (Suc n) n"

definition two_digits :: "int \<Rightarrow> string" where
  "two_digits n = [digit_char (nat n div 10), digit_char (nat n)]"

definition format_day_key :: "int \<times> int \<times> int \<Rightarrow> string" where
  "format_day_key p =
     (case p of (y, m, d) \<Rightarrow> show_nat (nat y) @ ''-'' @ two_digits m @ ''-'' @ two_digits d)"

text \<open>
  The page's helpers. \<open>getBeijingDateTimeParts\<close> adds the hour and the minute of the
  Beijing wall clock (24-hour clock, hours 0 to 23).
\<close>

definition beijing_hour :: "int \<Rightarrow> int" where
  "beijing_hour date = ((date + beijing_offset) mod ms_per_day) div 3600000"

definition beijing_minute :: "int \<Rightarrow> int" where
  "beijing_minute date = (((date + beijing_offset) mod ms_per_day) mod 3600000) div 60000"

definition getBeijingDayKey :: "int \<Rightarrow> string" where
  "getBeijingDayKey date = format_day_key (getBeijingDateParts date)"

definition getBeijingDayStart :: "int \<Rightarrow> int" where
  "getBeijingDayStart date = beijing_day_start date"

definition DAILY_REFRESH_MINUTE :: int where
  "DAILY_REFRESH_MINUTE = 5"

definition TODAY_REFRESH_INTERVAL_MS :: int where
  "TODAY_REFRESH_INTERVAL_MS = 5 * 60 * 1000"

text \<open>
  \<^verbatim>\<open>
  function getDailyRefreshKey(date = new Date()) {
    const parts = getBeijingDateTimeParts(date);
    const dayStart = getBeijingDayStart(date);
    if (parts.hour === 0 && parts.minute < DAILY_REFRESH_MINUTE) {
      dayStart.setUTCDate(dayStart.getUTCDate() - 1);
    }
    return getBeijingDayKey(dayStart);
  }
  \<close>
\<close>

definition getDailyRefreshKey :: "int \<Rightarrow> string" where
  "getDailyRefreshKey date =
     (let dayStart = getBeijingDayStart date;
          dayStart' = (if beijing_hour date = 0 \<and> beijing_minute date < DAILY_REFRESH_MINUTE
                       then dayStart - ms_per_day else dayStart)
      in getBeijingDayKey dayStart')"


section \<open>The scanner collaborator (window.electronAPI.scanLogFiles)\<close>

text \<open>
  A scan request names the base path and the window; the result follows the collaborator's
  contract. \<open>files\<close> is \<open>None\<close> when the property is missing or \<open>null\<close>. A call returns a
  result or rejects (\<open>Thrown\<close>). \<open>window.electronAPI?.scanLogFiles\<close> may be absent (\<open>None\<close>).
\<close>

record log_file =
  path :: string
  lines :: "string list"
  mtime :: string

record scan_result =
  success :: bool
  files :: "log_file list option"
  totalMatched :: nat
  scannedCount :: nat
  truncated :: bool
  error :: "string option"

type_synonym scanner = "string \<Rightarrow> int \<Rightarrow> int \<Rightarrow> scan_result outcome"

section \<open>Scanning Claude logs (usageAggregator.js)\<close>

text \<open>
  The loops of \<open>scanClaudeLogs\<close> push onto \<open>records\<close>; an exception anywhere in the \<open>try\<close>
  block ends the scan and what was pushed so far is returned. The flag says whether the
  loop was left by an exception.
\<close>

text \<open>
  \<^verbatim>\<open>
  if (!result.success || !result.files) { return records; }
  ...
  for (const file of result.files) {
    for (const line of file.lines) {
      const record = parseClaudeLog(line);
      if (record && record.timestamp >= start && record.timestamp < end) {
        records.push(record);
      }
    }
  }
  \<close>
\<close>

fun claude_lines ::
    "builtins \<Rightarrow> int \<Rightarrow> int \<Rightarrow> string list \<Rightarrow> UsageRecord list \<Rightarrow> UsageRecord list \<times> bool" where
  "claude_lines B start end' [] records = (records, False)"
| "claude_lines B start end' (line # rest) records =
     (case parseClaudeLog B line of
        Thrown e \<Rightarrow> (records, True)
      | Returned None \<Rightarrow> claude_lines B start end' rest records
      | Returned (Some r) \<Rightarrow>
          if in_window start end' (timestamp r)
          then claude_lines B start end' rest (records @ [r])
          else claude_lines B start end' rest records)"

fun claude_files ::
    "builtins \<Rightarrow> int \<Rightarrow> int \<Rightarrow> log_file list \<Rightarrow> UsageRecord list \<Rightarrow> UsageRecord list" where
  "claude_files B start end' [] records = records"
| "claude_files B start end' (file # rest) records =
     (case claude_lines B start end' (lines file) records of
        (records', True) \<Rightarrow> records'
      | (records', False) \<Rightarrow> claude_files B start end' rest records')"

definition scanClaudeLogs :: "builtins \<Rightarrow> scanner option \<Rightarrow> int \<Rightarrow> int \<Rightarrow> UsageRecord list" where
  "scanClaudeLogs B api start end' =
     (case api of
        None \<Rightarrow> []
      | Some scanLogFiles \<Rightarrow>
          (case scanLogFiles ''~/.claude/projects'' start end' of
             Thrown e \<Rightarrow> []
           | Returned result \<Rightarrow>
               if \<not> success result then []
               else (case files result of
                       None \<Rightarrow> []
                     | Some fs \<Rightarrow> claude_files B start end' fs [])))"

section \<open>Scanning Codex logs: the session reducer (usageAggregator.js)\<close>

definition is_hex_char :: "char \<Rightarrow> bool" where
  "is_hex_char c = (c \<in> set ''0123456789abcdefABCDEF'')"

text \<open>The pattern \<open>[0-9a-f]{8}-[0-9a-f]{4}-[0-9a-f]{4}-[0-9a-f]{4}-[0-9a-f]{12}\<close>, ignoring case.\<close>

definition is_uuid :: "string \<Rightarrow> bool" where
  "is_uuid u =
     (length u = 36 \<and>
      list_all (\<lambda>i. if i \<in> {8, 13, 18, 23} then u ! i = CHR ''-'' else is_hex_char (u ! i))
        [0..<36])"

definition last_segment :: "string \<Rightarrow> string" where
  "last_segment p = rev (takeWhile (\<lambda>c. c \<noteq> CHR ''/'' \<and> c \<noteq> CHR 0x5C) (rev p))"

definition strip_jsonl :: "string \<Rightarrow> string" where
  "strip_jsonl f =
     (if 6 \<le> length f \<and> toLowerCase (drop (length f - 6) f) = ''.jsonl''
      then take (length f - 6) f else f)"

definition extractCodexSessionId :: "string \<Rightarrow> string" where
  "extractCodexSessionId filePath =
     (let fileName = last_segment filePath;
          stem = strip_jsonl fileName;
          tail = drop (length stem - 36) stem
      in toLowerCase
           (if is_uuid tail then tail
            else if stem \<noteq> [] then stem
            else ''unknown-codex-session''))"

text \<open>\<open>a <= b\<close> on numbers, \<open>a.timestamp > b.timestamp\<close> on the timestamps of two snapshots.\<close>

definition num_le :: "jsnum \<Rightarrow> jsnum \<Rightarrow> bool" where
  "num_le a b = (num_lt a b \<or> num_eq a b)"

text \<open>
  \<^verbatim>\<open>
  function pickCodexMaxSnapshot(current, incoming) {
    if (!current) { return incoming; }
    if (incoming.totalTokens > current.totalTokens) { return incoming; }
    if (incoming.totalTokens === current.totalTokens && incoming.timestamp > current.timestamp) {
      return incoming;
    }
    return current;
  }
  \<close>
\<close>

definition pickCodexMaxSnapshot :: "CodexSnapshot option \<Rightarrow> CodexSnapshot \<Rightarrow> CodexSnapshot" where
  "pickCodexMaxSnapshot current incoming =
     (case current of
        None \<Rightarrow> incoming
      | Some cur \<Rightarrow>
          if num_lt (totalTokens cur) (totalTokens incoming) then incoming
          else if num_eq (totalTokens incoming) (totalTokens cur)
                  \<and> num_lt (ts_number (snapTimestamp cur)) (ts_number (snapTimestamp incoming))
               then incoming
          else cur)"

record SessionState =
  beforeWindow :: "CodexSnapshot option"
  inWindow :: "CodexSnapshot option"

text \<open>
  The body of the loop over the lines of one file. A line that parses to no snapshot, or
  to a snapshot whose timestamp is \<open>null\<close>, is skipped before any slot is touched.
\<close>

text \<open>
  \<^verbatim>\<open>
  const snapshot = parseCodexTokenSnapshot(line);
  if (!snapshot?.timestamp) { continue; }
  if (snapshot.timestamp < start) {
    state.beforeWindow = pickCodexMaxSnapshot(state.beforeWindow, snapshot);
    continue;
  }
  if (snapshot.timestamp >= start && snapshot.timestamp < end) {
    state.inWindow = pickCodexMaxSnapshot(state.inWindow, snapshot);
  }
  \<close>
\<close>

definition codex_snapshot_step :: "int \<Rightarrow> int \<Rightarrow> SessionState \<Rightarrow> CodexSnapshot option \<Rightarrow> SessionState" where
  "codex_snapshot_step start end' state snapshot =
     (case snapshot of
        None \<Rightarrow> state
      | Some snap \<Rightarrow>
          if snapTimestamp snap = None then state
          else if num_lt (ts_number (snapTimestamp snap)) (Fin (of_int start))
            then state\<lparr> beforeWindow := Some (pickCodexMaxSnapshot (beforeWindow state) snap) \<rparr>
          else if in_window start end' (snapTimestamp snap)
            then state\<lparr> inWindow := Some (pickCodexMaxSnapshot (inWindow state) snap) \<rparr>
          else state)"

fun codex_lines ::
    "builtins \<Rightarrow> int \<Rightarrow> int \<Rightarrow> string list \<Rightarrow> SessionState \<Rightarrow> js_error + SessionState" where
  "codex_lines B start end' [] state = Inr state"
| "codex_lines B start end' (line # rest) state =
     (case parseCodexTokenSnapshot B line of
        Thrown e \<Rightarrow> Inl e
      | Returned snapshot \<Rightarrow>
          codex_lines B start end' rest (codex_snapshot_step start end' state snapshot))"

text \<open>
  \<open>sessionSnapshots\<close> is a \<open>Map\<close>: an association list in insertion order; \<open>set\<close> on a key
  that is present replaces the value in place.
\<close>

fun map_set :: "('k \<times> 'v) list \<Rightarrow> 'k \<Rightarrow> 'v \<Rightarrow> ('k \<times> 'v) list" where
  "map_set [] k v = [(k, v)]"
| "map_set ((k', v') # rest) k v =
     (if k' = k then (k, v) # rest else (k', v') # map_set rest k v)"

definition empty_state :: SessionState where
  "empty_state = \<lparr> beforeWindow = None, inWindow = None \<rparr>"

fun codex_files ::
    "builtins \<Rightarrow> int \<Rightarrow> int \<Rightarrow> log_file list \<Rightarrow> (string \<times> SessionState) list
      \<Rightarrow> js_error + (string \<times> SessionState) list" where
  "codex_files B start end' [] sessionSnapshots = Inr sessionSnapshots"
| "codex_files B start end' (file # rest) sessionSnapshots =
     (let sessionId = extractCodexSessionId (path file);
          state = (case map_of sessionSnapshots sessionId of None \<Rightarrow> empty_state | Some st \<Rightarrow> st)
      in case codex_lines B start end' (lines file) state of
           Inl e \<Rightarrow> Inl e
         | Inr state' \<Rightarrow> codex_files B start end' rest (map_set sessionSnapshots sessionId state'))"

text \<open>
  The second loop: one record per session with a snapshot in the window, from the
  difference between the largest snapshot in the window and the largest one before it.
\<close>

text \<open>
  \<^verbatim>\<open>
  const deltaInputTotal = Math.max(0, state.inWindow.inputTotal - before.inputTotal);
  const deltaOutput = Math.max(0, state.inWindow.outputTotal - before.outputTotal);
  const deltaCacheRead = Math.max(0, state.inWindow.cacheReadTotal - before.cacheReadTotal);
  const deltaNonCachedInput = Math.max(0, deltaInputTotal - deltaCacheRead);
  const deltaTotal = deltaNonCachedInput + deltaOutput + deltaCacheRead;
  if (deltaTotal <= 0) { continue; }
  records.push({ timestamp: state.inWindow.timestamp, model: state.inWindow.model,
    input: deltaNonCachedInput, output: deltaOutput, cacheRead: deltaCacheRead, cacheCreate: 0 });
  \<close>
\<close>

definition zero_snapshot :: CodexSnapshot where
  "zero_snapshot = \<lparr> snapTimestamp = None, snapModel = [], inputTotal = Fin 0, outputTotal = Fin 0,
                      cacheReadTotal = Fin 0, totalTokens = Fin 0 \<rparr>"

definition session_record :: "SessionState \<Rightarrow> UsageRecord option" where
  "session_record state =
     (case inWindow state of
        None \<Rightarrow> None
      | Some inW \<Rightarrow>
          (let before = (case beforeWindow state of None \<Rightarrow> zero_snapshot | Some b \<Rightarrow> b);
               deltaInputTotal = math_max (Fin 0) (num_sub (inputTotal inW) (inputTotal before));
               deltaOutput = math_max (Fin 0) (num_sub (outputTotal inW) (outputTotal before));
               deltaCacheRead = math_max (Fin 0) (num_sub (cacheReadTotal inW) (cacheReadTotal before));
               deltaNonCachedInput = math_max (Fin 0) (num_sub deltaInputTotal deltaCacheRead);
               deltaTotal = num_add (num_add deltaNonCachedInput deltaOutput) deltaCacheRead
           in if num_le deltaTotal (Fin 0) then None
              else Some \<lparr> timestamp = snapTimestamp inW,
                          model = snapModel inW,
                          input = JNum deltaNonCachedInput,
                          outputTokens = JNum deltaOutput,
                          cacheRead = JNum deltaCacheRead,
                          cacheCreate = JNum (Fin 0) \<rparr>))"

definition session_records :: "(string \<times> SessionState) list \<Rightarrow> UsageRecord list" where
  "session_records sessionSnapshots = List.map_filter (\<lambda>(k, state). session_record state) sessionSnapshots"

definition scanCodexLogs :: "builtins \<Rightarrow> scanner option \<Rightarrow> int \<Rightarrow> int \<Rightarrow> UsageRecord list" where
  "scanCodexLogs B api start end' =
     (case api of
        None \<Rightarrow> []
      | Some scanLogFiles \<Rightarrow>
          (case scanLogFiles ''~/.codex/sessions'' start end' of
             Thrown e \<Rightarrow> []
           | Returned result \<Rightarrow>
               if \<not> success result then []
               else (case files result of
                       None \<Rightarrow> []
                     | Some fs \<Rightarrow>
                         (case codex_files B start end' fs [] of
                            Inl e \<Rightarrow> []
                          | Inr sessionSnapshots \<Rightarrow> session_records sessionSnapshots))))"


section \<open>Aggregation by model and the view data (usageAggregator.js)\<close>

record ModelAggregate =
  name :: string
  m_input :: jsval
  m_output :: jsval
  m_cacheRead :: jsval
  m_cacheCreate :: jsval
  total :: jsval
  count :: nat

definition new_aggregate :: "string \<Rightarrow> ModelAggregate" where
  "new_aggregate m = \<lparr> name = m, m_input = JNum (Fin 0), m_output = JNum (Fin 0),
       m_cacheRead = JNum (Fin 0), m_cacheCreate = JNum (Fin 0), total = JNum (Fin 0), count = 0 \<rparr>"

definition add_record :: "builtins \<Rightarrow> ModelAggregate \<Rightarrow> UsageRecord \<Rightarrow> ModelAggregate" where
  "add_record B modelData r =
     modelData\<lparr> m_input := js_plus B (m_input modelData) (js_or (input r) (JNum (Fin 0))),
                 m_output := js_plus B (m_output modelData) (js_or (outputTokens r) (JNum (Fin 0))),
                 m_cacheRead := js_plus B (m_cacheRead modelData) (js_or (cacheRead r) (JNum (Fin 0))),
                 m_cacheCreate :=
                   js_plus B (m_cacheCreate modelData) (js_or (cacheCreate r) (JNum (Fin 0))),
                 total := js_plus B (total modelData) (calculateTotalTokens B r),
                 count := count modelData + 1 \<rparr>"

text \<open>
  \<open>aggregateByModel\<close>: the \<open>Map\<close> from model to aggregate, in insertion order. The key of a
  record is \<open>record.model || 'unknown'\<close>.
\<close>

fun aggregate_into ::
    "builtins \<Rightarrow> (string \<times> ModelAggregate) list \<Rightarrow> UsageRecord list \<Rightarrow> (string \<times> ModelAggregate) list"
    where
  "aggregate_into B aggregated [] = aggregated"
| "aggregate_into B aggregated (r # rest) =
     (let m = (if model r \<noteq> [] then model r else ''unknown'');
          modelData = (case map_of aggregated m of None \<Rightarrow> new_aggregate m | Some a \<Rightarrow> a)
      in aggregate_into B (map_set aggregated m (add_record B modelData r)) rest)"

definition aggregateByModel :: "builtins \<Rightarrow> UsageRecord list \<Rightarrow> (string \<times> ModelAggregate) list" where
  "aggregateByModel B records = aggregate_into B [] records"

text \<open>
  \<open>MODEL_COLORS\<close> in the order of the source, and \<open>getModelColor\<close>: the exact key first,
  then the first key the name contains, then the default. (Keys that an object inherits,
  such as \<open>constructor\<close>, are not modelled.)
\<close>

definition MODEL_COLORS :: "(string \<times> string) list" where
  "MODEL_COLORS =
     [(''opus'', ''#2563eb''), (''claude-opus'', ''#2563eb''), (''sonnet'', ''#6366f1''),
      (''claude-sonnet'', ''#6366f1''), (''haiku'', ''#8b5cf6''), (''claude-haiku'', ''#8b5cf6''),
      (''claude'', ''#ec4899''), (''gpt-5'', ''#e67e22''), (''gpt-4o'', ''#f97316''),
      (''gpt-4'', ''#f59e0b''), (''gpt-3.5'', ''#fbbf24''), (''kimi'', ''#16a34a''),
      (''kimi-pro'', ''#22c55e''), (''deepseek'', ''#a855f7''), (''gemini'', ''#dc2626''),
      (''qwen'', ''#10b981''), (''yi'', ''#ec4899''), (''llama'', ''#06b6d4''),
      (''mistral'', ''#f59e0b''), (''codex'', ''#3b82f6''), (''default'', ''#8b919a'')]"

definition default_color :: string where
  "default_color = ''#8b919a''"

definition getModelColor :: "string \<Rightarrow> string" where
  "getModelColor m =
     (let normalized = toLowerCase m in
      case map_of MODEL_COLORS normalized of
        Some c \<Rightarrow> c
      | None \<Rightarrow>
          (case List.find (\<lambda>(key, color). includes_str normalized key) MODEL_COLORS of
             Some (key, color) \<Rightarrow> color
           | None \<Rightarrow> default_color))"

text \<open>\<open>v > 0\<close> against the number 0: the value is converted to a number.\<close>

definition js_gt_zero :: "builtins \<Rightarrow> jsval \<Rightarrow> bool" where
  "js_gt_zero B v = num_lt (Fin 0) (to_number B v)"

text \<open>
  The comparator of the sort, \<open>(b.total - a.total) || a.name.localeCompare(b.name)\<close>:
  the difference when it is neither zero nor \<open>NaN\<close>, the comparison of the names otherwise.
\<close>

definition model_compare :: "builtins \<Rightarrow> ModelAggregate \<Rightarrow> ModelAggregate \<Rightarrow> jsnum" where
  "model_compare B a b =
     (let d = num_sub (to_number B (total b)) (to_number B (total a)) in
      if num_truthy d then d else Fin (of_int (locale_compare B (name a) (name b))))"

text \<open>
  \<open>Array.prototype.sort\<close> with a comparator is a stable sort: \<open>a\<close> stays before \<open>b\<close>
  unless the comparator is positive on \<open>(a, b)\<close>. It is modelled as insertion sort.
\<close>

fun insert_by :: "('a \<Rightarrow> 'a \<Rightarrow> jsnum) \<Rightarrow> 'a \<Rightarrow> 'a list \<Rightarrow> 'a list" where
  "insert_by cmp x [] = [x]"
| "insert_by cmp x (y # ys) =
     (if num_lt (Fin 0) (cmp x y) then y # insert_by cmp x ys else x # y # ys)"

definition sort_by :: "('a \<Rightarrow> 'a \<Rightarrow> jsnum) \<Rightarrow> 'a list \<Rightarrow> 'a list" where
  "sort_by cmp xs = foldr (insert_by cmp) xs []"

record ModelEntry = ModelAggregate +
  color :: string

record ModelWithPercent = ModelEntry +
  percent :: jsval

record Bucket =
  b_name :: string
  b_percent :: jsval
  b_color :: string
  b_key :: string

record ViewData =
  v_total :: jsval
  v_input :: jsval
  v_output :: jsval
  v_cache :: jsval
  models :: "ModelEntry list"
  distribution :: "Bucket list"
  isExtremeScenario :: bool
  modelCount :: nat

definition with_color :: "ModelAggregate \<Rightarrow> ModelEntry" where
  "with_color m = ModelAggregate.extend m (ModelEntry.fields (getModelColor (name m)))"

text \<open>\<open>total > 0 ? Math.round((model.total / total) * 100) : 0\<close>.\<close>

definition percent_of :: "builtins \<Rightarrow> jsval \<Rightarrow> jsval \<Rightarrow> jsval" where
  "percent_of B part whole =
     (if js_gt_zero B whole
      then JNum (math_round (num_mul (num_div (to_number B part) (to_number B whole)) (Fin 100)))
      else JNum (Fin 0))"

definition with_percent :: "builtins \<Rightarrow> jsval \<Rightarrow> ModelEntry \<Rightarrow> ModelWithPercent" where
  "with_percent B whole m = ModelEntry.extend m (ModelWithPercent.fields (percent_of B (total m) whole))"

definition to_bucket :: "ModelWithPercent \<Rightarrow> Bucket" where
  "to_bucket m = \<lparr> b_name = name m, b_percent = percent m, b_color = color m, b_key = name m \<rparr>"

text \<open>
  The label of the synthetic bucket is the UTF-8 text of the source: two Chinese
  characters (``others''), a space, the count in parentheses followed by three Chinese
  characters (``models'').
\<close>

definition others_label :: "nat \<Rightarrow> string" where
  "others_label n =
     map char_of [0xE5, 0x85, 0xB6, 0xE4, 0xBB, 0x96 :: nat] @ '' ('' @ show_nat n
       @ map char_of [0xE4, 0xB8, 0xAA, 0xE6, 0xA8, 0xA1, 0xE5, 0x9E, 0x8B :: nat] @ '')''"

definition sum_totals :: "builtins \<Rightarrow> 'a ModelAggregate_scheme list \<Rightarrow> jsval" where
  "sum_totals B ms = foldl (\<lambda>sum m. js_plus B sum (total m)) (JNum (Fin 0)) ms"

text \<open>
  \<^verbatim>\<open>
  const nonZeroModels = Array.from(aggregated.values()).filter(model => model.total > 0);
  const models = nonZeroModels
    .sort((a, b) => (b.total - a.total) || a.name.localeCompare(b.name))
    .map(model => ({ ...model, color: getModelColor(model.name) }));
  ...
  const isExtremeScenario = models.length > 5;
  if (!isExtremeScenario) { distribution = modelsWithPercent.map(...); }
  else {
    const topModels = modelsWithPercent.slice(0, 5);
    const otherModels = modelsWithPercent.slice(5);
    distribution = topModels.map(...);
    const othersTotal = otherModels.reduce((sum, model) => sum + model.total, 0);
    const othersPercent = total > 0 ? Math.round((othersTotal / total) * 100) : 0;
    if (othersTotal > 0) { distribution.push({ name: ..., percent: othersPercent,
      color: MODEL_COLORS.default, key: 'others' }); }
  }
  \<close>
\<close>

definition generateViewData :: "builtins \<Rightarrow> (string \<times> ModelAggregate) list \<Rightarrow> ViewData" where
  "generateViewData B aggregated =
     (let nonZeroModels = filter (\<lambda>m. js_gt_zero B (total m)) (map snd aggregated);
          ms = map with_color (sort_by (model_compare B) nonZeroModels);
          tot = sum_totals B ms;
          totalInput = foldl (\<lambda>sum m. js_plus B sum (m_input m)) (JNum (Fin 0)) ms;
          totalOutput = foldl (\<lambda>sum m. js_plus B sum (m_output m)) (JNum (Fin 0)) ms;
          totalCache =
            foldl (\<lambda>sum m. js_plus B (js_plus B sum (m_cacheRead m)) (m_cacheCreate m)) (JNum (Fin 0)) ms;
          modelsWithPercent = map (with_percent B tot) ms;
          extreme = (5 < length ms);
          dist =
            (if \<not> extreme then map to_bucket modelsWithPercent
             else
               (let topModels = take 5 modelsWithPercent;
                    otherModels = drop 5 modelsWithPercent;
                    othersTotal = sum_totals B otherModels;
                    othersPercent = percent_of B othersTotal tot
                in map to_bucket topModels @
                   (if js_gt_zero B othersTotal
                    then [\<lparr> b_name = others_label (length otherModels), b_percent = othersPercent,
                            b_color = default_color, b_key = ''others'' \<rparr>]
                    else [])))
      in \<lparr> v_total = tot, v_input = totalInput, v_output = totalOutput, v_cache = totalCache,
           models = ms, distribution = dist, isExtremeScenario = extreme,
           modelCount = length ms \<rparr>)"

section \<open>The entry point \<open>aggregateUsage\<close>\<close>

text \<open>
  The result of \<open>aggregateUsage\<close>: \<open>{success: false, error}\<close> or \<open>{success: true, data}\<close>, where
  \<open>data\<close> is the view data with the period, the window (as time values; the source renders
  them with \<open>toISOString\<close>) and the number of records. The current instant \<open>now\<close>, the
  built-ins and the scanner are parameters. Nothing in the model of the \<open>try\<close> block
  throws, so its \<open>catch\<close> (\<open>{success: false, error: error.message}\<close>) has no branch here.
  \<^verbatim>\<open>
  if (!['today', 'week', 'month'].includes(period)) {
    return { success: false, error: 'INVALID_PERIOD' };
  }
  const { start, end } = getBeijingTimeWindow(period);
  const [claudeRecords, codexRecords] = await Promise.all([
    scanClaudeLogs(start, end), scanCodexLogs(start, end) ]);
  const allRecords = [...claudeRecords, ...codexRecords];
  const aggregated = aggregateByModel(allRecords);
  const viewData = generateViewData(aggregated);
  return { success: true, data: { ...viewData, period, startTime: start.toISOString(),
    endTime: end.toISOString(), recordCount: allRecords.length } };
  \<close>
\<close>

record UsageData =
  view :: ViewData
  period :: string
  startTime :: int
  endTime :: int
  recordCount :: nat

datatype usage_result = Failure string | Success UsageData

definition aggregateUsage :: "builtins \<Rightarrow> scanner option \<Rightarrow> int \<Rightarrow> string \<Rightarrow> usage_result" where
  "aggregateUsage B api now p =
     (if p \<notin> set [''today'', ''week'', ''month''] then Failure ''INVALID_PERIOD''
      else
        (let (start, end') = getBeijingTimeWindow now p;
             claudeRecords = scanClaudeLogs B api start end';
             codexRecords = scanCodexLogs B api start end';
             allRecords = claudeRecords @ codexRecords;
             aggregated = aggregateByModel B allRecords;
             viewData = generateViewData B aggregated
         in Success \<lparr> view = viewData, period = p, startTime = start, endTime = end',
                       recordCount = length allRecords \<rparr>))"


section \<open>The refresh policy of the cache (UsageMonitorPage.jsx)\<close>

text \<open>
  A cache entry as the page writes it and reads it back from local storage: the data of
  the last successful aggregation, the instant of the computation as an ISO string, the
  day key (period \<open>today\<close>) and the daily refresh key (periods \<open>week\<close> and \<open>month\<close>). Each
  property may be missing (\<open>None\<close>); an empty string is falsy like a missing one. A cache
  slot holds an entry or \<open>null\<close>.
\<close>

record 'd cache_entry =
  data :: "'d option"
  computedAt :: "string option"
  dayKey :: "string option"
  dailyRefreshKey :: "string option"

text \<open>
  \<^verbatim>\<open>
  function isTodayCacheFresh(entry, now) {
    if (!entry?.computedAt || !entry?.dayKey) return false;
    if (entry.dayKey !== getBeijingDayKey(now)) { return false; }
    const computedAt = new Date(entry.computedAt);
    if (Number.isNaN(computedAt.getTime())) return false;
    return (now.getTime() - computedAt.getTime()) < TODAY_REFRESH_INTERVAL_MS;
  }
  function isRangeCacheFresh(entry, now) {
    if (!entry?.dailyRefreshKey) return false;
    return entry.dailyRefreshKey === getDailyRefreshKey(now);
  }
  function shouldRefreshPeriod(period, entry, now) {
    if (!entry?.data) return true;
    if (period === 'today') { return !isTodayCacheFresh(entry, now); }
    return !isRangeCacheFresh(entry, now);
  }
  \<close>
\<close>

definition isTodayCacheFresh :: "builtins \<Rightarrow> 'd cache_entry option \<Rightarrow> int \<Rightarrow> bool" where
  "isTodayCacheFresh B entry now =
     (case entry of
        None \<Rightarrow> False
      | Some e \<Rightarrow>
          (case (computedAt e, dayKey e) of
             (Some c, Some k) \<Rightarrow>
               if c = [] \<or> k = [] then False
               else if k \<noteq> getBeijingDayKey now then False
               else (case date_parse B c of
                       None \<Rightarrow> False
                     | Some t \<Rightarrow> now - t < TODAY_REFRESH_INTERVAL_MS)
           | _ \<Rightarrow> False))"

definition isRangeCacheFresh :: "'d cache_entry option \<Rightarrow> int \<Rightarrow> bool" where
  "isRangeCacheFresh entry now =
     (case entry of
        None \<Rightarrow> False
      | Some e \<Rightarrow>
          (case dailyRefreshKey e of
             None \<Rightarrow> False
           | Some k \<Rightarrow> if k = [] then False else k = getDailyRefreshKey now))"

definition has_data :: "'d cache_entry option \<Rightarrow> bool" where
  "has_data entry = (case entry of None \<Rightarrow> False | Some e \<Rightarrow> data e \<noteq> None)"

definition shouldRefreshPeriod :: "builtins \<Rightarrow> string \<Rightarrow> 'd cache_entry option \<Rightarrow> int \<Rightarrow> bool" where
  "shouldRefreshPeriod B p entry now =
     (if \<not> has_data entry then True
      else if p = ''today'' then \<not> isTodayCacheFresh B entry now
      else \<not> isRangeCacheFresh entry now)"

section \<open>Built-ins for the examples\<close>

text \<open>
  The concrete examples below need concrete built-ins. \<open>iso_date_parse\<close> is \<open>Date.parse\<close> on
  the two shapes of ISO string that the logs and the page use,
  \<open>YYYY-MM-DDTHH:MM:SS+08:00\<close> and \<open>YYYY-MM-DDTHH:MM:SS.mmmZ\<close>; any other string is an invalid
  date. \<open>code_compare\<close> compares two strings character by character.
\<close>

definition digit_val :: "char \<Rightarrow> int option" where
  "digit_val c = map_of (zip ''0123456789'' [0, 1, 2, 3, 4, 5, 6, 7, 8, 9]) c"

fun digits_val :: "string \<Rightarrow> int option" where
  "digits_val [] = None"
| "digits_val [c] = digit_val c"
| "digits_val cs =
     (case (digits_val (butlast cs), digit_val (last cs)) of
        (Some a, Some b) \<Rightarrow> Some (10 * a + b)
      | _ \<Rightarrow> None)"

definition iso_date_parse :: "string \<Rightarrow> int option" where
  "iso_date_parse s =
     (if length s \<notin> {24, 25} \<or> s ! 4 \<noteq> CHR ''-'' \<or> s ! 7 \<noteq> CHR ''-'' \<or> s ! 10 \<noteq> CHR ''T''
         \<or> s ! 13 \<noteq> CHR '':'' \<or> s ! 16 \<noteq> CHR '':''
      then None
      else
        (case (digits_val (take 4 s), digits_val (take 2 (drop 5 s)), digits_val (take 2 (drop 8 s)),
               digits_val (take 2 (drop 11 s)), digits_val (take 2 (drop 14 s)),
               digits_val (take 2 (drop 17 s))) of
           (Some y, Some m, Some d, Some hh, Some mm, Some ss) \<Rightarrow>
             if drop 19 s = ''+08:00'' then Some (beijing_time y m d hh mm ss)
             else if length s = 24 \<and> s ! 19 = CHR ''.'' \<and> s ! 23 = CHR ''Z''
               then (case digits_val (take 3 (drop 20 s)) of
                       Some ms \<Rightarrow> Some (utc_time y m d hh mm ss + ms)
                     | None \<Rightarrow> None)
             else None
         | _ \<Rightarrow> None))"

fun code_compare :: "string \<Rightarrow> string \<Rightarrow> int" where
  "code_compare [] [] = 0"
| "code_compare [] (y # ys) = - 1"
| "code_compare (x # xs) [] = 1"
| "code_compare (x # xs) (y # ys) =
     (if (of_char x :: nat) < of_char y then - 1
      else if (of_char y :: nat) < of_char x then 1
      else code_compare xs ys)"

text \<open>
  Built-ins over a given \<open>JSON.parse\<close>: the examples name their log lines and say what
  each line parses to. No example converts a string to a number or back.
\<close>

definition example_builtins :: "(string \<Rightarrow> jsval option) \<Rightarrow> builtins" where
  "example_builtins jp =
     \<lparr> json_parse = jp, date_parse = iso_date_parse, str_to_num = (\<lambda>s. NaN),
       num_to_str = (\<lambda>n. []), obj_to_str = (\<lambda>v. []), locale_compare = code_compare \<rparr>"


section \<open>Vocabulary of the statements\<close>

text \<open>The sub-objects the parsers require, read from the value \<open>JSON.parse\<close> returned.\<close>

definition claude_usage :: "jsval \<Rightarrow> jsval" where
  "claude_usage d = opt_prop (opt_prop d ''message'') ''usage''"

definition is_token_count_event :: "jsval \<Rightarrow> bool" where
  "is_token_count_event d =
     (opt_prop d ''type'' = JStr ''event_msg'' \<and>
      opt_prop (opt_prop d ''payload'') ''type'' = JStr ''token_count'')"

definition codex_info :: "jsval \<Rightarrow> jsval" where
  "codex_info d = opt_prop (opt_prop d ''payload'') ''info''"

definition total_usage :: "jsval \<Rightarrow> jsval" where
  "total_usage d = opt_prop (codex_info d) ''total_token_usage''"

text \<open>A number that is a non-negative integer.\<close>

fun is_nonneg_int :: "jsnum \<Rightarrow> bool" where
  "is_nonneg_int (Fin r) = (0 \<le> r \<and> of_int \<lfloor>r\<rfloor> = r)"
| "is_nonneg_int n = False"

section \<open>Log lines of the examples\<close>

text \<open>
  The values of the lines that the tests build with \<open>buildClaudeLogLine\<close> and
  \<open>buildCodexTokenCountLine\<close>.
\<close>

definition claude_line :: "string \<Rightarrow> string \<Rightarrow> int \<Rightarrow> int \<Rightarrow> jsval" where
  "claude_line ts m inp outp =
     JObj [(''timestamp'', JStr ts),
           (''message'', JObj [(''model'', JStr m),
              (''usage'', JObj [(''input_tokens'', JNum (Fin (of_int inp))),
                                (''output_tokens'', JNum (Fin (of_int outp))),
                                (''cache_read_input_tokens'', JNum (Fin 0)),
                                (''cache_creation_input_tokens'', JNum (Fin 0))])])]"

definition codex_line :: "string \<Rightarrow> int \<Rightarrow> int \<Rightarrow> int \<Rightarrow> jsval" where
  "codex_line ts inT outT crT =
     JObj [(''timestamp'', JStr ts),
           (''type'', JStr ''event_msg''),
           (''payload'', JObj [(''type'', JStr ''token_count''),
              (''info'', JObj [
                 (''total_token_usage'', JObj [(''input_tokens'', JNum (Fin (of_int inT))),
                                               (''cached_input_tokens'', JNum (Fin (of_int crT))),
                                               (''output_tokens'', JNum (Fin (of_int outT))),
                                               (''total_tokens'', JNum (Fin (of_int (inT + outT + crT))))]),
                 (''last_token_usage'', JObj [(''input_tokens'', JNum (Fin 1)),
                                              (''cached_input_tokens'', JNum (Fin 1)),
                                              (''output_tokens'', JNum (Fin 1)),
                                              (''total_tokens'', JNum (Fin 3))])])])]"

text \<open>
  The lines of the examples, each under a name, with the value \<open>JSON.parse\<close> returns for it;
  \<open>JSON.parse\<close> throws on any other line.
  \<^item> \<open>claude-ok\<close>, \<open>codex-before\<close>, \<open>codex-small\<close>, \<open>codex-big\<close>: lines of the tests.
  \<^item> \<open>null\<close>: the JSON text \<open>null\<close>. \<open>no-usage\<close>: an object with a timestamp only.
  \<^item> \<open>claude-no-ts\<close>: a Claude line with usage and no timestamp anywhere.
  \<^item> \<open>codex-no-ts\<close>: a token-count event with totals and no timestamp.
  \<^item> \<open>claude-negative\<close>: a Claude line whose \<open>input_tokens\<close> is \<open>-5\<close>.
  \<^item> \<open>codex-huge\<close>: a token-count event whose \<open>input_tokens\<close> and \<open>output_tokens\<close> are both
    \<open>2^1023\<close>, with no \<open>total_tokens\<close>.
\<close>

definition example_lines :: "(string \<times> jsval) list" where
  "example_lines =
     [(''claude-ok'', claude_line ''2026-02-15T01:00:00+08:00'' ''claude-opus-4-1'' 20 10),
      (''codex-before'', codex_line ''2026-02-14T15:59:00.000Z'' 60 10 30),
      (''codex-small'', codex_line ''2026-02-14T16:10:00.000Z'' 80 10 50),
      (''codex-big'', codex_line ''2026-02-14T16:20:00.000Z'' 95 15 60),
      (''null'', JNull),
      (''no-usage'', JObj [(''timestamp'', JStr ''2026-02-15T01:00:00+08:00'')]),
      (''claude-no-ts'',
         JObj [(''message'', JObj [(''model'', JStr ''sonnet''),
                 (''usage'', JObj [(''input_tokens'', JNum (Fin 7))])])]),
      (''codex-no-ts'',
         JObj [(''type'', JStr ''event_msg''),
               (''payload'', JObj [(''type'', JStr ''token_count''),
                  (''info'', JObj [(''total_token_usage'',
                     JObj [(''input_tokens'', JNum (Fin 9)), (''total_tokens'', JNum (Fin 9))])])])]),
      (''claude-negative'',
         JObj [(''timestamp'', JStr ''2026-02-15T01:00:00+08:00''),
               (''message'', JObj [(''model'', JStr ''sonnet''),
                 (''usage'', JObj [(''input_tokens'', JNum (Fin (- 5)))])])]),
      (''codex-huge'',
         JObj [(''timestamp'', JStr ''2026-02-14T16:20:00.000Z''),
               (''type'', JStr ''event_msg''),
               (''payload'', JObj [(''type'', JStr ''token_count''),
                  (''info'', JObj [(''total_token_usage'',
                     JObj [(''input_tokens'', JNum (Fin (2 ^ 1023))),
                           (''output_tokens'', JNum (Fin (2 ^ 1023)))])])])])]"

definition B0 :: builtins where
  "B0 = example_builtins (map_of example_lines)"


text \<open>
  The scanner of the tests: every scan succeeds, with the given files for the Claude
  directory and for the Codex directory.
\<close>

definition mock_scanner :: "log_file list \<Rightarrow> log_file list \<Rightarrow> scanner" where
  "mock_scanner claudeFiles codexFiles basePath start end' =
     Returned \<lparr> success = True,
                 files = Some (if basePath = ''~/.claude/projects'' then claudeFiles
                               else if basePath = ''~/.codex/sessions'' then codexFiles else []),
                 totalMatched = 0, scannedCount = 0, truncated = False, error = None \<rparr>"


text \<open>The file of one Codex session: the snapshot before the window, a smaller snapshot in
  the window, and the largest snapshot twice.\<close>

definition dedup_file :: log_file where
  "dedup_file =
     \<lparr> path = ''/tmp/rollout-2026-02-15T10-00-00-019c5f06-c6e8-7f50-add2-6865b618d549.jsonl'',
       lines = [''codex-before'', ''codex-small'', ''codex-big'', ''codex-big''],
       mtime = ''2026-02-15T03:00:00.000Z'' \<rparr>"

text \<open>
  The states a session can be in while the lines of the dedup scenario are read: the slot
  before the window is empty or holds the one earlier snapshot, the slot in the window is
  empty or holds one of the two snapshots of the window.
\<close>

definition scen_inv :: "CodexSnapshot \<Rightarrow> CodexSnapshot \<Rightarrow> CodexSnapshot \<Rightarrow> SessionState \<Rightarrow> bool" where
  "scen_inv before small big st =
     ((beforeWindow st = None \<or> beforeWindow st = Some before) \<and>
      (inWindow st = None \<or> inWindow st = Some small \<or> inWindow st = Some big))"









text \<open>The view data of an aggregation without records.\<close>

definition empty_view :: ViewData where
  "empty_view = \<lparr> v_total = JNum (Fin 0), v_input = JNum (Fin 0), v_output = JNum (Fin 0),
                   v_cache = JNum (Fin 0), models = [], distribution = [],
                   isExtremeScenario = False, modelCount = 0 \<rparr>"





text \<open>
  What the page can use of a cache entry. For \<open>today\<close>: the entry has data, a non-empty
  day key and a \<open>computedAt\<close> string that parses to an instant. For \<open>week\<close> and \<open>month\<close>: the
  entry has data and a non-empty daily refresh key. Anything less counts as no entry.
\<close>

definition today_entry :: "builtins \<Rightarrow> 'd cache_entry option \<Rightarrow> (int \<times> string) option" where
  "today_entry B entry =
     (case entry of
        None \<Rightarrow> None
      | Some e \<Rightarrow>
          (case (data e, computedAt e, dayKey e) of
             (Some d, Some c, Some k) \<Rightarrow>
               if c = [] \<or> k = [] then None
               else (case date_parse B c of None \<Rightarrow> None | Some t \<Rightarrow> Some (t, k))
           | _ \<Rightarrow> None))"

definition range_entry :: "'d cache_entry option \<Rightarrow> string option" where
  "range_entry entry =
     (case entry of
        None \<Rightarrow> None
      | Some e \<Rightarrow>
          (case (data e, dailyRefreshKey e) of
             (Some d, Some k) \<Rightarrow> if k = [] then None else Some k
           | _ \<Rightarrow> None))"

text \<open>The milliseconds since the last Beijing midnight.\<close>

definition beijing_ms_of_day :: "int \<Rightarrow> int" where
  "beijing_ms_of_day date = (date + beijing_offset) mod ms_per_day"

text \<open>Cache entries of the examples, computed on 2026-02-15 (Beijing).\<close>

definition today_entry_0255 :: "unit cache_entry" where
  "today_entry_0255 = \<lparr> data = Some (), computedAt = Some ''2026-02-15T02:55:00.000Z'',
                         dayKey = Some ''2026-02-15'', dailyRefreshKey = None \<rparr>"

definition week_entry_0214 :: "unit cache_entry" where
  "week_entry_0214 = \<lparr> data = Some (), computedAt = Some ''2026-02-14T03:00:00.000Z'',
                        dayKey = None, dailyRefreshKey = Some ''2026-02-14'' \<rparr>"


text \<open>
  The models the view shows: the aggregates whose total is greater than 0, in the order of
  the \<open>Map\<close>, and the same models in rank order. The bucket of a model, and the bucket that
  stands for the models after the fifth.
\<close>

definition positive_models :: "builtins \<Rightarrow> (string \<times> ModelAggregate) list \<Rightarrow> ModelAggregate list" where
  "positive_models B aggregated = filter (\<lambda>m. js_gt_zero B (total m)) (map snd aggregated)"

definition ranked_models :: "builtins \<Rightarrow> (string \<times> ModelAggregate) list \<Rightarrow> ModelAggregate list" where
  "ranked_models B aggregated = sort_by (model_compare B) (positive_models B aggregated)"

definition model_bucket :: "builtins \<Rightarrow> jsval \<Rightarrow> ModelAggregate \<Rightarrow> Bucket" where
  "model_bucket B whole m =
     \<lparr> b_name = name m, b_percent = percent_of B (total m) whole,
       b_color = getModelColor (name m), b_key = name m \<rparr>"

definition others_bucket :: "builtins \<Rightarrow> jsval \<Rightarrow> ModelAggregate list \<Rightarrow> Bucket" where
  "others_bucket B whole rest =
     \<lparr> b_name = others_label (length rest), b_percent = percent_of B (sum_totals B rest) whole,
       b_color = default_color, b_key = ''others'' \<rparr>"

text \<open>The aggregates whose total is not the number 0.\<close>

definition nonzero_models :: "(string \<times> ModelAggregate) list \<Rightarrow> ModelAggregate list" where
  "nonzero_models aggregated = filter (\<lambda>m. total m \<noteq> JNum (Fin 0)) (map snd aggregated)"

text \<open>
  The rank order: \<open>a\<close> may stand before \<open>b\<close> when its total is greater, or the totals are
  equal and the name of \<open>a\<close> does not compare after the name of \<open>b\<close>.
\<close>

definition ranked_before ::
    "builtins \<Rightarrow> 'a ModelAggregate_scheme \<Rightarrow> 'b ModelAggregate_scheme \<Rightarrow> bool" where
  "ranked_before B a b =
     (num_lt (to_number B (total b)) (to_number B (total a)) \<or>
      (to_number B (total a) = to_number B (total b) \<and> locale_compare B (name a) (name b) \<le> 0))"

text \<open>
  A comparison of names that orders them: any two names compare one way or the other,
  and the comparison is transitive. \<open>localeCompare\<close> is such a comparison in every locale.
\<close>

definition consistent_comparator :: "(string \<Rightarrow> string \<Rightarrow> int) \<Rightarrow> bool" where
  "consistent_comparator lc =
     ((\<forall>a b. lc a b \<le> 0 \<or> lc b a \<le> 0) \<and>
      (\<forall>a b c. lc a b \<le> 0 \<longrightarrow> lc b c \<le> 0 \<longrightarrow> lc a c \<le> 0))"

text \<open>Aggregates of the examples: one record per model, all tokens as input.\<close>

definition agg_of :: "(string \<times> int) list \<Rightarrow> (string \<times> ModelAggregate) list" where
  "agg_of xs =
     map (\<lambda>(n, t). (n, \<lparr> name = n, m_input = JNum (Fin (of_int t)), m_output = JNum (Fin 0),
                           m_cacheRead = JNum (Fin 0), m_cacheCreate = JNum (Fin 0),
                           total = JNum (Fin (of_int t)), count = 1 \<rparr>)) xs"

definition negative_file :: log_file where
  "negative_file = \<lparr> path = ''/tmp/mock-claude.jsonl'', lines = [''claude-negative''],
                     mtime = ''2026-02-15T03:00:00.000Z'' \<rparr>"


text \<open>A model that the view shows: its total is greater than 0.\<close>

definition shown :: "builtins \<Rightarrow> 'a ModelAggregate_scheme \<Rightarrow> bool" where
  "shown B m = js_gt_zero B (total m)"

section \<open>Strings: helper lemmas\<close>

lemma to_lower_char_idem: "to_lower_char (to_lower_char c) = to_lower_char c"
  by (auto simp: to_lower_char_def upper_to_lower_def split: option.splits if_splits)

lemma includes_str_sublist: "includes_str xs sub = sublist sub xs"
  by (induction xs) (auto simp: sublist_Cons_right)

lemma includes_str_prefix: "prefix r l \<Longrightarrow> includes_str r k \<Longrightarrow> includes_str l k"
  unfolding includes_str_sublist
  by (metis prefix_imp_sublist sublist_order.order_trans)

lemma split_on_nonempty: "split_on sep s \<noteq> []"
  by (induction s) (auto split: list.splits)

lemma split_on_no_sep: "w \<in> set (split_on sep s) \<Longrightarrow> sep \<notin> set w"
  by (induction s arbitrary: w) (auto split: list.splits if_splits)

lemma join_split: "join_with sep (split_on sep s) = s"
proof (induction s)
  case Nil show ?case by simp
next
  case (Cons c cs)
  show ?case
  proof (cases "c = sep")
    case True
    obtain w ws where "split_on sep cs = w # ws" using split_on_nonempty by (cases "split_on sep cs") auto
    with Cons True show ?thesis by simp
  next
    case False
    obtain w ws where e: "split_on sep cs = w # ws" using split_on_nonempty by (cases "split_on sep cs") auto
    with Cons False show ?thesis by (cases ws) auto
  qed
qed

lemma split_join: "ws \<noteq> [] \<Longrightarrow> (\<forall>w\<in>set ws. sep \<notin> set w) \<Longrightarrow> split_on sep (join_with sep ws) = ws"
proof (induction sep ws rule: join_with.induct)
  case (1 sep) then show ?case by simp
next
  case (2 sep w)
  then have "sep \<notin> set w" by simp
  then have "split_on sep w = [w]" by (induction w) auto
  then show ?case by simp
next
  case (3 sep w v ws)
  then have IH: "split_on sep (join_with sep (v # ws)) = v # ws" by simp
  from 3 have "sep \<notin> set w" by simp
  then have "split_on sep (w @ sep # join_with sep (v # ws)) = w # split_on sep (join_with sep (v # ws))"
    by (induction w) auto
  with IH show ?case by simp
qed

lemma prefix_join_take: "prefix (join_with sep (take n ws)) (join_with sep ws)"
proof (induction sep ws arbitrary: n rule: join_with.induct)
  case (1 sep) show ?case by simp
next
  case (2 sep w) show ?case by (cases n) auto
next
  case (3 sep w v ws)
  show ?case
  proof (cases n)
    case 0 then show ?thesis by simp
  next
    case (Suc k)
    show ?thesis
    proof (cases k)
      case 0 with Suc show ?thesis by simp
    next
      case (Suc j)
      have "prefix (join_with sep (take k (v # ws))) (join_with sep (v # ws))" using 3 by simp
      with Suc \<open>n = Suc k\<close> show ?thesis by simp
    qed
  qed
qed

lemma hd_split_prefix: "prefix (hd (split_on sep s)) s"
proof -
  obtain w ws where e: "split_on sep s = w # ws"
    using split_on_nonempty by (cases "split_on sep s") auto
  have "prefix (join_with sep (take 1 (split_on sep s))) (join_with sep (split_on sep s))"
    by (rule prefix_join_take)
  then have "prefix (join_with sep (take 1 (split_on sep s))) s"
    by (simp only: join_split)
  with e show ?thesis by simp
qed

lemma hd_split_no_sep: "sep \<notin> set (hd (split_on sep s))"
  using split_on_no_sep [of "hd (split_on sep s)" sep s] split_on_nonempty [of sep s]
  by (cases "split_on sep s") auto

lemma split_on_absent: "sep \<notin> set s \<Longrightarrow> split_on sep s = [s]"
  by (induction s) auto

lemma fallbackName_prefix: "prefix (fallbackName l) l"
proof -
  let ?h = "hd (split_on (CHR '':'') l)"
  have "prefix (join_with (CHR ''-'') (take 2 (split_on (CHR ''-'') ?h))) (join_with (CHR ''-'') (split_on (CHR ''-'') ?h))"
    by (rule prefix_join_take)
  then have "prefix (fallbackName l) ?h" by (simp add: fallbackName_def join_split)
  moreover have "prefix ?h l" by (rule hd_split_prefix)
  ultimately show ?thesis by (rule prefix_order.order_trans)
qed

lemma fallbackName_idem: "fallbackName (fallbackName l) = fallbackName l"
proof -
  let ?h = "hd (split_on (CHR '':'') l)"
  let ?ws = "take 2 (split_on (CHR ''-'') ?h)"
  have f: "fallbackName l = join_with (CHR ''-'') ?ws" by (simp add: fallbackName_def)
  have "prefix (fallbackName l) ?h"
    using prefix_join_take [of "CHR ''-''" 2 "split_on (CHR ''-'') ?h"]
    by (simp add: fallbackName_def join_split)
  then have "set (fallbackName l) \<subseteq> set ?h" by (rule set_mono_prefix)
  then have nocolon: "CHR '':'' \<notin> set (fallbackName l)" using hd_split_no_sep [of "CHR '':''" l] by blast
  then have h2: "hd (split_on (CHR '':'') (fallbackName l)) = fallbackName l"
    by (simp add: split_on_absent)
  have ne: "?ws \<noteq> []" using split_on_nonempty [of "CHR ''-''" ?h] by simp
  have nd: "\<forall>w\<in>set ?ws. CHR ''-'' \<notin> set w"
    using split_on_no_sep [of _ "CHR ''-''" ?h] by (meson in_set_takeD)
  have "split_on (CHR ''-'') (fallbackName l) = ?ws"
    unfolding f using ne nd by (rule split_join)
  then have "fallbackName (fallbackName l) = join_with (CHR ''-'') (take 2 ?ws)"
    using h2 by (simp add: fallbackName_def)
  then show ?thesis using f by simp
qed

lemma toLowerCase_fixed_prefix: "toLowerCase l = l \<Longrightarrow> prefix r l \<Longrightarrow> toLowerCase r = r"
  by (auto simp: toLowerCase_def prefix_def)

lemma toLowerCase_idem: "toLowerCase (toLowerCase s) = toLowerCase s"
  by (simp add: toLowerCase_def to_lower_char_idem)

lemma no_rule_prefix: "no_rule l \<Longrightarrow> prefix r l \<Longrightarrow> no_rule r"
  unfolding no_rule_def using includes_str_prefix by blast

lemma normalize_no_rule: "m \<noteq> [] \<Longrightarrow> no_rule (toLowerCase m) \<Longrightarrow> normalizeModelName (JStr m) = fallbackName (toLowerCase m)"
  by (simp add: normalizeModelName_def no_rule_def)

lemma norm_consts:
  "normalizeModelName (JStr ''unknown'') = ''unknown''"
  "normalizeModelName (JStr ''opus'') = ''opus''"
  "normalizeModelName (JStr ''sonnet'') = ''sonnet''"
  "normalizeModelName (JStr ''haiku'') = ''haiku''"
  "normalizeModelName (JStr ''claude'') = ''claude''"
  "normalizeModelName (JStr ''gpt-5'') = ''gpt-5''"
  "normalizeModelName (JStr ''gpt-4o'') = ''gpt-4o''"
  "normalizeModelName (JStr ''gpt-4'') = ''gpt-4''"
  "normalizeModelName (JStr ''gpt-3.5'') = ''gpt-3.5''"
  "normalizeModelName (JStr ''kimi'') = ''kimi''"
  "normalizeModelName (JStr ''deepseek'') = ''deepseek''"
  "normalizeModelName (JStr ''gemini'') = ''gemini''"
  "normalizeModelName (JStr ''qwen'') = ''qwen''"
  "normalizeModelName (JStr ''yi'') = ''yi''"
  "normalizeModelName (JStr ''llama'') = ''llama''"
  "normalizeModelName (JStr ''mistral'') = ''mistral''"
  by (simp_all add: normalizeModelName_def toLowerCase_def to_lower_char_def upper_to_lower_def fallbackName_def)

lemma normalize_cases:
  "normalizeModelName x \<in> {''unknown'', ''opus'', ''sonnet'', ''haiku'', ''claude'', ''gpt-5'', ''gpt-4o'',
       ''gpt-4'', ''gpt-3.5'', ''kimi'', ''deepseek'', ''gemini'', ''qwen'', ''yi'', ''llama'', ''mistral''}
   \<or> (\<exists>m. x = JStr m \<and> m \<noteq> [] \<and> no_rule (toLowerCase m) \<and> normalizeModelName x = fallbackName (toLowerCase m))"
  unfolding normalizeModelName_def no_rule_def Let_def
  by (cases x) (simp_all)

lemma normalize_idem_nonempty:
  assumes "normalizeModelName x \<noteq> []"
  shows "normalizeModelName (JStr (normalizeModelName x)) = normalizeModelName x"
proof -
  consider (c) "normalizeModelName x \<in> {''unknown'', ''opus'', ''sonnet'', ''haiku'', ''claude'', ''gpt-5'', ''gpt-4o'',
       ''gpt-4'', ''gpt-3.5'', ''kimi'', ''deepseek'', ''gemini'', ''qwen'', ''yi'', ''llama'', ''mistral''}"
    | (f) m where "x = JStr m" "m \<noteq> []" "no_rule (toLowerCase m)" "normalizeModelName x = fallbackName (toLowerCase m)"
    using normalize_cases [of x] by blast
  then show ?thesis
  proof cases
    case c
    then show ?thesis using norm_consts by auto
  next
    case f
    let ?l = "toLowerCase m"
    let ?r = "fallbackName ?l"
    have p: "prefix ?r ?l" by (rule fallbackName_prefix)
    have nr: "no_rule ?r" using f(3) p by (rule no_rule_prefix)
    have lr: "toLowerCase ?r = ?r" using toLowerCase_idem p by (rule toLowerCase_fixed_prefix)
    have ne: "?r \<noteq> []" using assms f(4) by simp
    have "normalizeModelName (JStr ?r) = fallbackName (toLowerCase ?r)"
      using ne nr lr by (simp add: normalize_no_rule)
    then show ?thesis using lr f(4) by (simp add: fallbackName_idem)
  qed
qed

lemma normalize_empty_string: "normalizeModelName (JStr []) = ''unknown''"
  by (simp add: normalizeModelName_def)

section \<open>C7: idempotence of the model-name normalisation\<close>

text \<open>
  C7, as the code has it. Normalising a name twice gives the same series name as
  normalising it once, for every argument (a string resolved by a rule, a string resolved
  by the fallback, or a value that is not a string) whose normalised name is not the empty
  string. When the fallback returns the empty string, the second pass takes the guard for
  a missing name and returns \<open>unknown\<close>.
\<close>

theorem normalizeModelName_idempotent_unless_empty:
  "normalizeModelName (JStr (normalizeModelName x)) =
     (if normalizeModelName x = [] then ''unknown'' else normalizeModelName x)"
  using normalize_idem_nonempty [of x] normalize_empty_string by simp

text \<open>
  C7 at the name \<open>:\<close>. No rule matches, the fallback keeps what stands before the first
  colon, which is nothing, and the empty string then normalises to \<open>unknown\<close>: the claim as
  stated fails here.
\<close>

theorem normalizeModelName_not_idempotent_at_colon:
  "normalizeModelName (JStr '':'') = [] \<and>
   normalizeModelName (JStr (normalizeModelName (JStr '':''))) = ''unknown'' \<and>
   normalizeModelName (JStr (normalizeModelName (JStr '':''))) \<noteq> normalizeModelName (JStr '':'')"
  by (simp add: normalizeModelName_def toLowerCase_def to_lower_char_def upper_to_lower_def
      fallbackName_def)

section \<open>The parsers: helper lemmas\<close>

lemma get_prop_cases: "get_prop v k = Inl TypeError \<or> get_prop v k = Inr (opt_prop v k)"
  by (cases v) auto

lemma get_prop_truthy: "truthy (opt_prop v k) \<Longrightarrow> get_prop v k' = Inr (opt_prop v k')"
  by (cases v) auto

lemma not_token_count_cases:
  "not_token_count d = Inl TypeError \<or> not_token_count d = Inr (\<not> is_token_count_event d)"
  by (cases d) (auto simp: not_token_count_def and_then_def is_token_count_event_def)

lemma parse_throw_None:
  assumes "json_parse B line = None"
  shows "parseClaudeLog B line = Returned None" and "parseCodexLog B line = Returned None"
    and "parseCodexTokenSnapshot B line = Returned None"
  using assms
  by (simp_all add: parseClaudeLog_def parseCodexLog_def parseCodexTokenSnapshot_def catch_null_def
      parseClaudeLog_body_def parseCodexLog_body_def parseCodexTokenSnapshot_body_def
      json_parse_or_throw_def and_then_def)

lemma claude_no_usage:
  assumes "json_parse B line = Some d" and "\<not> truthy (claude_usage d)"
  shows "parseClaudeLog B line = Returned None"
  using assms get_prop_cases [of d "''message''"]
  by (auto simp add: parseClaudeLog_def catch_null_def parseClaudeLog_body_def claude_usage_def
      json_parse_or_throw_def and_then_def)

lemma claude_with_usage:
  assumes "json_parse B line = Some d" and "truthy (claude_usage d)"
  shows "\<exists>r. parseClaudeLog B line = Returned (Some r)"
proof -
  let ?m = "opt_prop d ''message''"
  let ?u = "opt_prop ?m ''usage''"
  have u: "truthy ?u" using assms(2) by (simp add: claude_usage_def)
  then have m: "truthy (opt_prop d ''message'')" by (cases ?m) auto
  have 1: "get_prop d k = Inr (opt_prop d k)" for k using m by (rule get_prop_truthy)
  have 2: "get_prop ?m k = Inr (opt_prop ?m k)" for k using u by (rule get_prop_truthy)
  have 3: "get_prop ?u k = Inr (opt_prop ?u k)" for k using u by (cases ?u) auto
  show ?thesis
    using assms(1) u
    by (simp add: parseClaudeLog_def catch_null_def parseClaudeLog_body_def prop_or_prop_def
        json_parse_or_throw_def and_then_def 1 2 3)
qed

lemma codex_not_event:
  assumes "json_parse B line = Some d" and "\<not> is_token_count_event d"
  shows "parseCodexLog B line = Returned None" and "parseCodexTokenSnapshot B line = Returned None"
  using assms not_token_count_cases [of d]
  by (auto simp add: parseCodexLog_def parseCodexTokenSnapshot_def catch_null_def
      parseCodexLog_body_def parseCodexTokenSnapshot_body_def
      json_parse_or_throw_def and_then_def)

lemma codex_no_total:
  assumes "json_parse B line = Some d" and "\<not> truthy (total_usage d)"
  shows "parseCodexTokenSnapshot B line = Returned None"
  using assms not_token_count_cases [of d] get_prop_cases [of d "''payload''"]
    get_prop_cases [of "opt_prop d ''payload''" "''info''"]
  by (auto simp add: parseCodexTokenSnapshot_def catch_null_def parseCodexTokenSnapshot_body_def
      json_parse_or_throw_def and_then_def total_usage_def codex_info_def)

lemma codex_no_usage:
  assumes "json_parse B line = Some d"
    and "\<not> truthy (opt_prop (codex_info d) ''last_token_usage'')"
    and "\<not> truthy (total_usage d)"
  shows "parseCodexLog B line = Returned None"
  using assms not_token_count_cases [of d] get_prop_cases [of d "''payload''"]
    get_prop_cases [of "opt_prop d ''payload''" "''info''"]
    get_prop_cases [of "opt_prop (opt_prop d ''payload'') ''info''" "''last_token_usage''"]
    get_prop_cases [of "opt_prop (opt_prop d ''payload'') ''info''" "''total_token_usage''"]
  by (auto simp add: parseCodexLog_def catch_null_def parseCodexLog_body_def prop_or_prop_def
      json_parse_or_throw_def and_then_def total_usage_def codex_info_def)

text \<open>What a successful snapshot parse read, field by field.\<close>

lemma snapshot_fields:
  assumes "parseCodexTokenSnapshot B line = Returned (Some s)"
  shows "\<exists>d. json_parse B line = Some d \<and> is_token_count_event d \<and> truthy (total_usage d) \<and>
           inputTotal s = toSafeInt B (opt_prop (total_usage d) ''input_tokens'') \<and>
           outputTotal s = toSafeInt B (opt_prop (total_usage d) ''output_tokens'') \<and>
           cacheReadTotal s = toSafeInt B (opt_prop (total_usage d) ''cached_input_tokens'') \<and>
           totalTokens s =
             (if num_truthy (toSafeInt B (opt_prop (total_usage d) ''total_tokens''))
              then toSafeInt B (opt_prop (total_usage d) ''total_tokens'')
              else num_add (num_add (inputTotal s) (outputTotal s)) (cacheReadTotal s))"
proof (cases "json_parse B line")
  case None
  then show ?thesis using assms parse_throw_None(3) [of B line] by simp
next
  case (Some d)
  have ev: "is_token_count_event d"
    using assms codex_not_event(2) [OF Some] by auto
  have tu: "truthy (total_usage d)"
    using assms codex_no_total [OF Some] by auto
  let ?p = "opt_prop d ''payload''"
  let ?i = "opt_prop ?p ''info''"
  let ?u = "opt_prop ?i ''total_token_usage''"
  have u: "truthy ?u" using tu by (simp add: total_usage_def codex_info_def)
  then have i: "truthy (opt_prop ?p ''info'')" by (cases ?i) auto
  then have p: "truthy (opt_prop d ''payload'')" by (cases ?p) auto
  have 1: "get_prop d k = Inr (opt_prop d k)" for k using p by (rule get_prop_truthy)
  have 2: "get_prop ?p k = Inr (opt_prop ?p k)" for k using i by (rule get_prop_truthy)
  have 3: "get_prop ?i k = Inr (opt_prop ?i k)" for k using u by (rule get_prop_truthy)
  have 4: "get_prop ?u k = Inr (opt_prop ?u k)" for k using u by (cases ?u) auto
  have ntc: "not_token_count d = Inr False"
    using ev by (simp add: not_token_count_def and_then_def is_token_count_event_def 1)
  show ?thesis
    using assms Some ev tu u
    by (auto simp add: parseCodexTokenSnapshot_def catch_null_def parseCodexTokenSnapshot_body_def
        json_parse_or_throw_def and_then_def ntc 1 2 3 4 Let_def total_usage_def codex_info_def)
qed

lemma math_max_zero_int: "math_max (Fin 0) (Fin (of_int k)) = Fin (of_int (max 0 k))"
  by (simp add: max_def)

lemma toSafeInt_clamp:
  "toSafeInt B v = (case to_number B v of Fin r \<Rightarrow> Fin (of_int (max 0 \<lfloor>r\<rfloor>)) | _ \<Rightarrow> Fin 0)"
proof (cases "to_number B v")
  case (Fin r)
  then have "toSafeInt B v = math_max (Fin 0) (Fin (of_int \<lfloor>r\<rfloor>))"
    by (simp add: toSafeInt_def)
  then show ?thesis using Fin by (simp only: math_max_zero_int jsnum.case)
qed (simp_all add: toSafeInt_def)

lemma is_nonneg_int_of_int: "0 \<le> k \<Longrightarrow> is_nonneg_int (Fin (of_int k))"
  by simp

lemma toSafeInt_nonneg_int: "is_nonneg_int (toSafeInt B v)"
proof (cases "to_number B v")
  case (Fin r)
  have "is_nonneg_int (Fin (of_int (max 0 \<lfloor>r\<rfloor>)))" by (rule is_nonneg_int_of_int) simp
  then show ?thesis using Fin by (simp only: toSafeInt_clamp jsnum.case)
qed (simp_all add: toSafeInt_clamp)

lemma dbl_overflow_pos: "0 < dbl_overflow"
  by (simp add: dbl_overflow_def)

lemma num_add_nonneg_int:
  assumes "is_nonneg_int a" and "is_nonneg_int b"
  shows "is_nonneg_int (num_add a b) \<or> num_add a b = PInf"
proof -
  obtain x y where a: "a = Fin x" and b: "b = Fin y"
    using assms by (cases a; cases b) auto
  have x: "0 \<le> x" "of_int \<lfloor>x\<rfloor> = x" and y: "0 \<le> y" "of_int \<lfloor>y\<rfloor> = y"
    using assms a b by auto
  obtain n m :: int where n: "x = of_int n" and m: "y = of_int m"
    using x(2) y(2) by metis
  have "x + y = of_int (n + m)" using n m by simp
  then have "of_int \<lfloor>x + y\<rfloor> = x + y" by (simp only: floor_of_int)
  moreover have "\<not> x + y \<le> - dbl_overflow" using x y dbl_overflow_pos by linarith
  ultimately show ?thesis using a b x y by (simp add: clip_def)
qed

lemma num_add_PInf_left: "b \<noteq> NaN \<Longrightarrow> b \<noteq> NInf \<Longrightarrow> num_add PInf b = PInf"
  by (cases b) auto

section \<open>C8: the parse functions return a record or the skip sentinel\<close>

text \<open>
  C8. For every line and whatever \<open>JSON.parse\<close> does with it, each of \<open>parseClaudeLog\<close>,
  \<open>parseCodexLog\<close> and \<open>parseCodexTokenSnapshot\<close> returns (a record or snapshot, or \<open>null\<close>) and
  never throws. A line that \<open>JSON.parse\<close> rejects, a JSON value without the \<open>message.usage\<close>
  object, a value that is not a token-count event, and an event without the usage totals
  all give \<open>null\<close>; a value with a truthy \<open>message.usage\<close> gives a record. The three functions
  are functions of the line (and the built-ins) alone: they read and write no state.
\<close>

theorem parsers_return_record_or_null:
  "(\<exists>r. parseClaudeLog B line = Returned r) \<and>
   (\<exists>r. parseCodexLog B line = Returned r) \<and>
   (\<exists>s. parseCodexTokenSnapshot B line = Returned s) \<and>
   (json_parse B line = None \<longrightarrow>
      parseClaudeLog B line = Returned None \<and> parseCodexLog B line = Returned None \<and>
      parseCodexTokenSnapshot B line = Returned None) \<and>
   (\<forall>d. json_parse B line = Some d \<longrightarrow>
      (\<not> truthy (claude_usage d) \<longrightarrow> parseClaudeLog B line = Returned None) \<and>
      (truthy (claude_usage d) \<longrightarrow> (\<exists>r. parseClaudeLog B line = Returned (Some r))) \<and>
      (\<not> is_token_count_event d \<longrightarrow>
         parseCodexLog B line = Returned None \<and> parseCodexTokenSnapshot B line = Returned None) \<and>
      (\<not> truthy (total_usage d) \<longrightarrow> parseCodexTokenSnapshot B line = Returned None) \<and>
      (\<not> truthy (opt_prop (codex_info d) ''last_token_usage'') \<and> \<not> truthy (total_usage d) \<longrightarrow>
         parseCodexLog B line = Returned None))"
proof -
  have "\<exists>r. parseClaudeLog B line = Returned r"
    by (simp add: parseClaudeLog_def catch_null_def split: sum.split)
  moreover have "\<exists>r. parseCodexLog B line = Returned r"
    by (simp add: parseCodexLog_def catch_null_def split: sum.split)
  moreover have "\<exists>s. parseCodexTokenSnapshot B line = Returned s"
    by (simp add: parseCodexTokenSnapshot_def catch_null_def split: sum.split)
  ultimately show ?thesis
    using parse_throw_None [of B line] claude_no_usage [of B line] claude_with_usage [of B line]
      codex_not_event [of B line] codex_no_total [of B line] codex_no_usage [of B line]
    by blast
qed

lemma B0_json_parse: "json_parse B0 = map_of example_lines"
  by (simp add: B0_def example_builtins_def)

lemma B0_date_parse: "date_parse B0 = iso_date_parse"
  by (simp add: B0_def example_builtins_def)

text \<open>
  The theorem at four lines: text that is not JSON, the JSON text \<open>null\<close> (the body throws
  a TypeError, which is caught), an object without usage, and a Claude line of the tests.
\<close>

theorem parsers_return_record_or_null_witness:
  "json_parse B0 ''not json'' = None \<and>
   parseClaudeLog B0 ''not json'' = Returned None \<and>
   parseCodexLog B0 ''not json'' = Returned None \<and>
   parseCodexTokenSnapshot B0 ''not json'' = Returned None \<and>
   json_parse B0 ''null'' = Some JNull \<and>
   parseClaudeLog B0 ''null'' = Returned None \<and>
   parseCodexTokenSnapshot B0 ''null'' = Returned None \<and>
   truthy (claude_usage (claude_line ''2026-02-15T01:00:00+08:00'' ''claude-opus-4-1'' 20 10)) \<and>
   (\<exists>r. parseClaudeLog B0 ''claude-ok'' = Returned (Some r)) \<and>
   parseCodexLog B0 ''claude-ok'' = Returned None"
proof -
  have 1: "json_parse B0 ''not json'' = None"
    by (simp add: B0_json_parse example_lines_def)
  have 2: "json_parse B0 ''null'' = Some JNull"
    by (simp add: B0_json_parse example_lines_def)
  have 3: "json_parse B0 ''claude-ok'' =
      Some (claude_line ''2026-02-15T01:00:00+08:00'' ''claude-opus-4-1'' 20 10)"
    by (simp add: B0_json_parse example_lines_def)
  have 4: "truthy (claude_usage (claude_line ''2026-02-15T01:00:00+08:00'' ''claude-opus-4-1'' 20 10))"
    by (simp add: claude_usage_def claude_line_def)
  have 5: "\<not> is_token_count_event (claude_line ''2026-02-15T01:00:00+08:00'' ''claude-opus-4-1'' 20 10)"
    by (simp add: is_token_count_event_def claude_line_def)
  have 6: "\<not> truthy (claude_usage JNull)" "\<not> truthy (total_usage JNull)"
    by (simp_all add: claude_usage_def total_usage_def codex_info_def)
  show ?thesis
    using parsers_return_record_or_null [of B0 "''not json''"]
      parsers_return_record_or_null [of B0 "''null''"]
      parsers_return_record_or_null [of B0 "''claude-ok''"] 1 2 3 4 5 6
    by simp
qed

section \<open>C10: the fields of a Codex snapshot\<close>

text \<open>
  C10, as the code has it. Every snapshot that \<open>parseCodexTokenSnapshot\<close> returns has
  \<open>inputTotal\<close>, \<open>outputTotal\<close> and \<open>cacheReadTotal\<close> that are non-negative integers: each is
  \<open>toSafeInt\<close> of the field of the line, which is 0 for a negative, non-numeric or non-finite
  value and the floor of any other. \<open>totalTokens\<close> is \<open>toSafeInt\<close> of \<open>total_tokens\<close> when that
  is not 0 and the sum of the three otherwise; it is a non-negative integer, or \<open>+Infinity\<close>
  when the sum overflows the double range.
\<close>

theorem snapshot_totals_nonneg_integers:
  assumes "parseCodexTokenSnapshot B line = Returned (Some s)"
  shows "is_nonneg_int (inputTotal s) \<and> is_nonneg_int (outputTotal s) \<and>
         is_nonneg_int (cacheReadTotal s) \<and>
         (is_nonneg_int (totalTokens s) \<or> totalTokens s = PInf) \<and>
         (\<exists>d. json_parse B line = Some d \<and>
            inputTotal s = toSafeInt B (opt_prop (total_usage d) ''input_tokens'') \<and>
            outputTotal s = toSafeInt B (opt_prop (total_usage d) ''output_tokens'') \<and>
            cacheReadTotal s = toSafeInt B (opt_prop (total_usage d) ''cached_input_tokens'') \<and>
            totalTokens s =
              (if num_truthy (toSafeInt B (opt_prop (total_usage d) ''total_tokens''))
               then toSafeInt B (opt_prop (total_usage d) ''total_tokens'')
               else num_add (num_add (inputTotal s) (outputTotal s)) (cacheReadTotal s))) \<and>
         (\<forall>v. toSafeInt B v =
            (case to_number B v of Fin r \<Rightarrow> Fin (of_int (max 0 \<lfloor>r\<rfloor>)) | _ \<Rightarrow> Fin 0))"
proof -
  obtain d where d: "json_parse B line = Some d"
    and i: "inputTotal s = toSafeInt B (opt_prop (total_usage d) ''input_tokens'')"
    and outp: "outputTotal s = toSafeInt B (opt_prop (total_usage d) ''output_tokens'')"
    and c: "cacheReadTotal s = toSafeInt B (opt_prop (total_usage d) ''cached_input_tokens'')"
    and t: "totalTokens s =
              (if num_truthy (toSafeInt B (opt_prop (total_usage d) ''total_tokens''))
               then toSafeInt B (opt_prop (total_usage d) ''total_tokens'')
               else num_add (num_add (inputTotal s) (outputTotal s)) (cacheReadTotal s))"
    using snapshot_fields [OF assms] by blast
  have ni: "is_nonneg_int (inputTotal s)" and no: "is_nonneg_int (outputTotal s)"
    and nc: "is_nonneg_int (cacheReadTotal s)"
    using i outp c by (simp_all add: toSafeInt_nonneg_int)
  have sum: "is_nonneg_int (num_add (num_add (inputTotal s) (outputTotal s)) (cacheReadTotal s))
      \<or> num_add (num_add (inputTotal s) (outputTotal s)) (cacheReadTotal s) = PInf"
  proof (cases "num_add (inputTotal s) (outputTotal s) = PInf")
    case True
    moreover have "cacheReadTotal s \<noteq> NaN" "cacheReadTotal s \<noteq> NInf" using nc by auto
    ultimately show ?thesis by (simp add: num_add_PInf_left)
  next
    case False
    then have "is_nonneg_int (num_add (inputTotal s) (outputTotal s))"
      using num_add_nonneg_int [OF ni no] by simp
    then show ?thesis using nc by (rule num_add_nonneg_int)
  qed
  have nt: "is_nonneg_int (totalTokens s) \<or> totalTokens s = PInf"
    using t sum toSafeInt_nonneg_int [of B "opt_prop (total_usage d) ''total_tokens''"]
    by (simp split: if_splits)
  show ?thesis
    using ni no nc nt d i outp c t toSafeInt_clamp by blast
qed

lemma iso_parse_example_1620: "iso_date_parse ''2026-02-14T16:20:00.000Z'' = Some 1771086000000"
  by code_simp

text \<open>The theorem at the line \<open>codex-big\<close> of the tests (totals 95, 15 and 60).\<close>

theorem snapshot_totals_nonneg_integers_witness:
  "parseCodexTokenSnapshot B0 ''codex-big'' =
     Returned (Some \<lparr> snapTimestamp = Some (DateAt 1771086000000), snapModel = ''codex'',
                      inputTotal = Fin 95, outputTotal = Fin 15, cacheReadTotal = Fin 60,
                      totalTokens = Fin 170 \<rparr>) \<and>
   is_nonneg_int (Fin 95) \<and> is_nonneg_int (Fin 15) \<and> is_nonneg_int (Fin 60) \<and>
   (is_nonneg_int (Fin 170) \<or> Fin 170 = PInf)"
proof -
  have p: "parseCodexTokenSnapshot B0 ''codex-big'' =
     Returned (Some \<lparr> snapTimestamp = Some (DateAt 1771086000000), snapModel = ''codex'',
                      inputTotal = Fin 95, outputTotal = Fin 15, cacheReadTotal = Fin 60,
                      totalTokens = Fin 170 \<rparr>)"
    by (simp add: parseCodexTokenSnapshot_def parseCodexTokenSnapshot_body_def catch_null_def
        json_parse_or_throw_def B0_json_parse example_lines_def codex_line_def and_then_def
        not_token_count_def toSafeInt_def date_or_null_def new_Date_def B0_date_parse
        iso_parse_example_1620 Let_def)
  show ?thesis
    using snapshot_totals_nonneg_integers [OF p] p by simp
qed

text \<open>
  C10 at a token-count event whose \<open>input_tokens\<close> and \<open>output_tokens\<close> are both \<open>2^1023\<close> and
  that has no \<open>total_tokens\<close>: each field is a finite integer, their sum is not, and the
  snapshot carries \<open>totalTokens = +Infinity\<close>.
\<close>

theorem snapshot_totalTokens_infinite:
  "parseCodexTokenSnapshot B0 ''codex-huge'' =
     Returned (Some \<lparr> snapTimestamp = Some (DateAt 1771086000000), snapModel = ''codex'',
                      inputTotal = Fin (2 ^ 1023), outputTotal = Fin (2 ^ 1023),
                      cacheReadTotal = Fin 0, totalTokens = PInf \<rparr>) \<and>
   \<not> is_nonneg_int PInf"
  by (simp add: parseCodexTokenSnapshot_def parseCodexTokenSnapshot_body_def catch_null_def
      json_parse_or_throw_def B0_json_parse example_lines_def and_then_def
      not_token_count_def toSafeInt_def date_or_null_def new_Date_def B0_date_parse
      iso_parse_example_1620 Let_def clip_def dbl_overflow_def)

section \<open>The session reducer: helper lemmas\<close>

lemma num_lt_irrefl [simp]: "\<not> num_lt a a"
  by (cases a) auto

lemma num_lt_not_eq: "num_lt a b \<Longrightarrow> \<not> num_eq b a \<and> \<not> num_eq a b \<and> \<not> num_lt b a"
  by (cases a; cases b) auto

lemma ts_lt_int [simp]: "num_lt (ts_number (Some (DateAt t))) (Fin (of_int s)) = (t < s)"
  by simp

lemma in_window_DateAt [simp]: "in_window s e (Some (DateAt t)) = (s \<le> t \<and> t < e)"
  by (auto simp: in_window_def num_ge_def)

lemma pick_same: "pickCodexMaxSnapshot (Some s) s = s"
  by (simp add: pickCodexMaxSnapshot_def)

lemma pick_larger: "num_lt (totalTokens a) (totalTokens b) \<Longrightarrow> pickCodexMaxSnapshot (Some a) b = b"
  by (simp add: pickCodexMaxSnapshot_def)

lemma pick_smaller: "num_lt (totalTokens a) (totalTokens b) \<Longrightarrow> pickCodexMaxSnapshot (Some b) a = b"
  using num_lt_not_eq [of "totalTokens a" "totalTokens b"]
  by (simp add: pickCodexMaxSnapshot_def)

lemma scen_steps:
  assumes b: "snapTimestamp before = Some (DateAt t0)" "t0 < start"
    and s: "snapTimestamp small = Some (DateAt t1)" "start \<le> t1" "t1 < end'"
    and g: "snapTimestamp big = Some (DateAt t2)" "start \<le> t2" "t2 < end'"
    and lt: "num_lt (totalTokens small) (totalTokens big)"
    and inv: "scen_inv before small big st"
  shows "codex_snapshot_step start end' st (Some before) = st\<lparr> beforeWindow := Some before \<rparr>"
    and "codex_snapshot_step start end' st (Some small) =
           st\<lparr> inWindow := Some (if inWindow st = Some big then big else small) \<rparr>"
    and "codex_snapshot_step start end' st (Some big) = st\<lparr> inWindow := Some big \<rparr>"
  using assms pick_same pick_larger [OF lt] pick_smaller [OF lt]
  by (auto simp: codex_snapshot_step_def scen_inv_def pickCodexMaxSnapshot_def)

lemma scen_lines:
  assumes b: "snapTimestamp before = Some (DateAt t0)" "t0 < start"
    and s: "snapTimestamp small = Some (DateAt t1)" "start \<le> t1" "t1 < end'"
    and g: "snapTimestamp big = Some (DateAt t2)" "start \<le> t2" "t2 < end'"
    and lt: "num_lt (totalTokens small) (totalTokens big)"
    and inv: "scen_inv before small big st"
    and ls: "\<forall>l\<in>set ls. parseCodexTokenSnapshot B l = Returned (Some before) \<or>
               parseCodexTokenSnapshot B l = Returned (Some small) \<or>
               parseCodexTokenSnapshot B l = Returned (Some big)"
  shows "\<exists>st'. codex_lines B start end' ls st = Inr st' \<and> scen_inv before small big st' \<and>
           (beforeWindow st = Some before \<or> (\<exists>l\<in>set ls. parseCodexTokenSnapshot B l = Returned (Some before))
              \<longrightarrow> beforeWindow st' = Some before) \<and>
           (inWindow st = Some big \<or> (\<exists>l\<in>set ls. parseCodexTokenSnapshot B l = Returned (Some big))
              \<longrightarrow> inWindow st' = Some big)"
  using inv ls
proof (induction ls arbitrary: st)
  case Nil
  then show ?case by simp
next
  case (Cons l ls)
  note steps = scen_steps [OF b s g lt Cons.prems(1)]
  have d: "before \<noteq> big" "before \<noteq> small" "small \<noteq> big"
    using b s g lt by auto
  consider (pb) "parseCodexTokenSnapshot B l = Returned (Some before)"
    | (ps) "parseCodexTokenSnapshot B l = Returned (Some small)"
    | (pg) "parseCodexTokenSnapshot B l = Returned (Some big)"
    using Cons.prems(2) by auto
  then show ?case
  proof cases
    case pb
    let ?s = "st\<lparr> beforeWindow := Some before \<rparr>"
    have i: "scen_inv before small big ?s" using Cons.prems(1) by (simp add: scen_inv_def)
    have r: "\<forall>l\<in>set ls. parseCodexTokenSnapshot B l = Returned (Some before) \<or>
               parseCodexTokenSnapshot B l = Returned (Some small) \<or>
               parseCodexTokenSnapshot B l = Returned (Some big)" using Cons.prems(2) by simp
    from Cons.IH [OF i r] pb steps(1) d show ?thesis by auto
  next
    case ps
    let ?s = "st\<lparr> inWindow := Some (if inWindow st = Some big then big else small) \<rparr>"
    have i: "scen_inv before small big ?s" using Cons.prems(1) by (simp add: scen_inv_def)
    have r: "\<forall>l\<in>set ls. parseCodexTokenSnapshot B l = Returned (Some before) \<or>
               parseCodexTokenSnapshot B l = Returned (Some small) \<or>
               parseCodexTokenSnapshot B l = Returned (Some big)" using Cons.prems(2) by simp
    from Cons.IH [OF i r] ps steps(2) d show ?thesis by auto
  next
    case pg
    let ?s = "st\<lparr> inWindow := Some big \<rparr>"
    have i: "scen_inv before small big ?s" using Cons.prems(1) by (simp add: scen_inv_def)
    have r: "\<forall>l\<in>set ls. parseCodexTokenSnapshot B l = Returned (Some before) \<or>
               parseCodexTokenSnapshot B l = Returned (Some small) \<or>
               parseCodexTokenSnapshot B l = Returned (Some big)" using Cons.prems(2) by simp
    from Cons.IH [OF i r] pg steps(3) d show ?thesis by auto
  qed
qed


lemma clip_small: "\<bar>r\<bar> \<le> 1000000 \<Longrightarrow> clip r = Fin r"
  by (auto simp: clip_def dbl_overflow_def)

lemma session_record_scenario:
  assumes "beforeWindow st = Some before" "inWindow st = Some big"
    "inputTotal before = Fin 60" "outputTotal before = Fin 10" "cacheReadTotal before = Fin 30"
    "inputTotal big = Fin 95" "outputTotal big = Fin 15" "cacheReadTotal big = Fin 60"
  shows "session_record st =
     Some \<lparr> timestamp = snapTimestamp big, model = snapModel big, input = JNum (Fin 5),
            outputTokens = JNum (Fin 5), cacheRead = JNum (Fin 30), cacheCreate = JNum (Fin 0) \<rparr>"
  using assms by (simp add: session_record_def num_sub_def clip_small num_le_def Let_def)


section \<open>C2: the Codex dedup scenario\<close>

text \<open>
  C2. One Codex session, read from one file. Its lines parse to three snapshots: one
  before the window with cumulative totals 60, 10 and 30 (input, output, cache read), one
  in the window with totals 95, 15 and 60, and a smaller one in the window (smaller
  \<open>totalTokens\<close>). The lines may come in any order and each may be repeated any number of
  times; the claim's case is the larger snapshot repeated once. The scan emits exactly one
  record, with input 5, output 5, cacheRead 30, cacheCreate 0 and total 40.
\<close>

theorem codex_dedup_one_record:
  assumes before: "before = \<lparr> snapTimestamp = Some (DateAt t0), snapModel = ''codex'',
        inputTotal = Fin 60, outputTotal = Fin 10, cacheReadTotal = Fin 30, totalTokens = tb \<rparr>"
    and big: "big = \<lparr> snapTimestamp = Some (DateAt t2), snapModel = ''codex'',
        inputTotal = Fin 95, outputTotal = Fin 15, cacheReadTotal = Fin 60, totalTokens = tg \<rparr>"
    and small: "snapTimestamp small = Some (DateAt t1)" "num_lt (totalTokens small) tg"
    and times: "t0 < start" "start \<le> t1" "t1 < end'" "start \<le> t2" "t2 < end'"
    and parsed: "\<forall>l\<in>set ls. parseCodexTokenSnapshot B l = Returned (Some before) \<or>
               parseCodexTokenSnapshot B l = Returned (Some small) \<or>
               parseCodexTokenSnapshot B l = Returned (Some big)"
    and has_before: "\<exists>l\<in>set ls. parseCodexTokenSnapshot B l = Returned (Some before)"
    and has_big: "\<exists>l\<in>set ls. parseCodexTokenSnapshot B l = Returned (Some big)"
    and scan: "scanLogFiles ''~/.codex/sessions'' start end' = Returned result"
      "success result" "files result = Some [f]" "lines f = ls"
  shows "scanCodexLogs B (Some scanLogFiles) start end' =
           [\<lparr> timestamp = Some (DateAt t2), model = ''codex'', input = JNum (Fin 5),
              outputTokens = JNum (Fin 5), cacheRead = JNum (Fin 30), cacheCreate = JNum (Fin 0) \<rparr>]
         \<and> calculateTotalTokens B
             \<lparr> timestamp = Some (DateAt t2), model = ''codex'', input = JNum (Fin 5),
               outputTokens = JNum (Fin 5), cacheRead = JNum (Fin 30), cacheCreate = JNum (Fin 0) \<rparr>
           = JNum (Fin 40)"
proof -
  have inv0: "scen_inv before small big empty_state"
    by (simp add: scen_inv_def empty_state_def)
  have lt: "num_lt (totalTokens small) (totalTokens big)" using small(2) big by simp
  have "\<exists>st'. codex_lines B start end' ls empty_state = Inr st' \<and> scen_inv before small big st' \<and>
           (beforeWindow empty_state = Some before \<or> (\<exists>l\<in>set ls. parseCodexTokenSnapshot B l = Returned (Some before))
              \<longrightarrow> beforeWindow st' = Some before) \<and>
           (inWindow empty_state = Some big \<or> (\<exists>l\<in>set ls. parseCodexTokenSnapshot B l = Returned (Some big))
              \<longrightarrow> inWindow st' = Some big)"
    by (rule scen_lines [where ?t0.0 = t0 and ?t1.0 = t1 and ?t2.0 = t2])
       (use before big small times lt inv0 parsed in simp_all)
  then obtain st' where run: "codex_lines B start end' ls empty_state = Inr st'"
    and bw: "beforeWindow st' = Some before" and iw: "inWindow st' = Some big"
    using has_before has_big by blast
  have rec: "session_record st' =
     Some \<lparr> timestamp = snapTimestamp big, model = snapModel big, input = JNum (Fin 5),
            outputTokens = JNum (Fin 5), cacheRead = JNum (Fin 30), cacheCreate = JNum (Fin 0) \<rparr>"
    using bw iw by (rule session_record_scenario) (simp_all add: before big)
  have "scanCodexLogs B (Some scanLogFiles) start end' =
      [\<lparr> timestamp = snapTimestamp big, model = snapModel big, input = JNum (Fin 5),
            outputTokens = JNum (Fin 5), cacheRead = JNum (Fin 30), cacheCreate = JNum (Fin 0) \<rparr>]"
    using scan run rec
    by (simp add: scanCodexLogs_def session_records_def)
  moreover have "calculateTotalTokens B
             \<lparr> timestamp = Some (DateAt t2), model = ''codex'', input = JNum (Fin 5),
               outputTokens = JNum (Fin 5), cacheRead = JNum (Fin 30), cacheCreate = JNum (Fin 0) \<rparr>
           = JNum (Fin 40)"
    by (simp add: calculateTotalTokens_def js_plus_def clip_small)
  ultimately show ?thesis by (simp add: big)
qed

lemma iso_parse_example_1559: "iso_date_parse ''2026-02-14T15:59:00.000Z'' = Some 1771084740000"
  by code_simp

lemma iso_parse_example_1610: "iso_date_parse ''2026-02-14T16:10:00.000Z'' = Some 1771085400000"
  by code_simp

text \<open>
  The theorem at the file of the scenario, in the window of \<open>today\<close> at
  2026-02-15T03:00:00Z, which runs from 2026-02-14T16:00:00Z to that instant.
\<close>

theorem codex_dedup_one_record_witness:
  "scanCodexLogs B0 (Some (mock_scanner [] [dedup_file])) 1771084800000 1771124400000 =
     [\<lparr> timestamp = Some (DateAt 1771086000000), model = ''codex'', input = JNum (Fin 5),
        outputTokens = JNum (Fin 5), cacheRead = JNum (Fin 30), cacheCreate = JNum (Fin 0) \<rparr>]
   \<and> calculateTotalTokens B0
        \<lparr> timestamp = Some (DateAt 1771086000000), model = ''codex'', input = JNum (Fin 5),
          outputTokens = JNum (Fin 5), cacheRead = JNum (Fin 30), cacheCreate = JNum (Fin 0) \<rparr>
      = JNum (Fin 40)"
proof -
  let ?before = "\<lparr> snapTimestamp = Some (DateAt 1771084740000), snapModel = ''codex'',
        inputTotal = Fin 60, outputTotal = Fin 10, cacheReadTotal = Fin 30, totalTokens = Fin 100 \<rparr>"
  let ?small = "\<lparr> snapTimestamp = Some (DateAt 1771085400000), snapModel = ''codex'',
        inputTotal = Fin 80, outputTotal = Fin 10, cacheReadTotal = Fin 50, totalTokens = Fin 140 \<rparr>"
  let ?big = "\<lparr> snapTimestamp = Some (DateAt 1771086000000), snapModel = ''codex'',
        inputTotal = Fin 95, outputTotal = Fin 15, cacheReadTotal = Fin 60, totalTokens = Fin 170 \<rparr>"
  have pb: "parseCodexTokenSnapshot B0 ''codex-before'' = Returned (Some ?before)"
    by (simp add: parseCodexTokenSnapshot_def parseCodexTokenSnapshot_body_def catch_null_def
        json_parse_or_throw_def B0_json_parse example_lines_def codex_line_def and_then_def
        not_token_count_def toSafeInt_def date_or_null_def new_Date_def B0_date_parse
        iso_parse_example_1559 Let_def)
  have ps: "parseCodexTokenSnapshot B0 ''codex-small'' = Returned (Some ?small)"
    by (simp add: parseCodexTokenSnapshot_def parseCodexTokenSnapshot_body_def catch_null_def
        json_parse_or_throw_def B0_json_parse example_lines_def codex_line_def and_then_def
        not_token_count_def toSafeInt_def date_or_null_def new_Date_def B0_date_parse
        iso_parse_example_1610 Let_def)
  have pg: "parseCodexTokenSnapshot B0 ''codex-big'' = Returned (Some ?big)"
    by (simp add: parseCodexTokenSnapshot_def parseCodexTokenSnapshot_body_def catch_null_def
        json_parse_or_throw_def B0_json_parse example_lines_def codex_line_def and_then_def
        not_token_count_def toSafeInt_def date_or_null_def new_Date_def B0_date_parse
        iso_parse_example_1620 Let_def)
  show ?thesis
    by (rule codex_dedup_one_record [where before = ?before and big = ?big and small = ?small
          and ?t0.0 = 1771084740000 and ?t1.0 = 1771085400000 and tb = "Fin 100" and tg = "Fin 170"
          and ls = "lines dedup_file" and f = dedup_file
          and result = "\<lparr> success = True, files = Some [dedup_file], totalMatched = 0,
                         scannedCount = 0, truncated = False, error = None \<rparr>"])
       (simp_all add: pb ps pg dedup_file_def mock_scanner_def)
qed

section \<open>C3: the window boundaries at 2026-02-15T03:00:00Z\<close>

lemma fixed_now: "utc_time 2026 2 15 3 0 0 = 1771124400000"
  by code_simp


lemma window_today: "getBeijingTimeWindow 1771124400000 ''today'' = (1771084800000, 1771124400000)"
  by code_simp








text \<open>
  What the window check decides is what the scan of the Claude logs keeps: a file with one
  line that parses to a record yields that record exactly when its timestamp passes the
  check.
\<close>

lemma scanClaudeLogs_single_line:
  assumes "parseClaudeLog B l = Returned (Some r)"
  shows "scanClaudeLogs B (Some (mock_scanner [\<lparr> path = p, lines = [l], mtime = m \<rparr>] cs)) start end' =
           (if in_window start end' (timestamp r) then [r] else [])"
  using assms by (simp add: scanClaudeLogs_def mock_scanner_def)

section \<open>Lines without a timestamp: helper lemmas\<close>













section \<open>C9: a line without a timestamp is not counted\<close>





lemma scan_codex_empty: "scanCodexLogs B (Some (mock_scanner cs [])) start end' = []"
  by (simp add: scanCodexLogs_def mock_scanner_def session_records_def)










section \<open>C1: a failed scan\<close>







section \<open>The refresh policy: helper lemmas\<close>

lemma day_index_of_start:
  "beijing_day_index (beijing_day_start t - k * ms_per_day) = beijing_day_index t - k"
proof -
  have "beijing_day_start t - k * ms_per_day + beijing_offset = (beijing_day_index t - k) * ms_per_day"
    by (simp add: beijing_day_start_def algebra_simps)
  then show ?thesis
    unfolding beijing_day_index_def [of "beijing_day_start t - k * ms_per_day"]
    by (simp add: ms_per_day_def)
qed

lemma ms_of_day_bounds: "0 \<le> beijing_ms_of_day t" "beijing_ms_of_day t < 86400000"
  by (simp_all add: beijing_ms_of_day_def ms_per_day_def)

lemma grace_iff:
  "(beijing_hour t = 0 \<and> beijing_minute t < DAILY_REFRESH_MINUTE) = (beijing_ms_of_day t < 300000)"
proof -
  define m where "m = beijing_ms_of_day t"
  have b: "0 \<le> m" "m < 86400000" using ms_of_day_bounds [of t] by (simp_all add: m_def)
  have h: "beijing_hour t = m div 3600000" and mi: "beijing_minute t = (m mod 3600000) div 60000"
    by (simp_all add: beijing_hour_def beijing_minute_def m_def beijing_ms_of_day_def)
  have h0: "(m div 3600000 = 0) = (m < 3600000)" using b by (auto simp: zdiv_eq_0_iff)
  show ?thesis
  proof (cases "m < 3600000")
    case True
    then have mm: "m mod 3600000 = m" using b by simp
    have e: "m = 60000 * (m div 60000) + m mod 60000" by simp
    have r: "0 \<le> m mod 60000" "m mod 60000 < 60000" by simp_all
    have "(m div 60000 < 5) = (m < 300000)" using e r by linarith
    then show ?thesis using True h0 by (simp add: h mi mm DAILY_REFRESH_MINUTE_def m_def [symmetric])
  next
    case False
    then show ?thesis using h0 by (simp add: h m_def [symmetric])
  qed
qed

lemma day_index_minus_5min:
  "beijing_day_index (t - 300000) =
     (if beijing_ms_of_day t < 300000 then beijing_day_index t - 1 else beijing_day_index t)"
proof -
  define x where "x = t + beijing_offset"
  define m where "m = x mod 86400000"
  define q where "q = x div 86400000"
  have e: "x = 86400000 * q + m" by (simp add: m_def q_def)
  have b: "0 \<le> m" "m < 86400000" by (simp_all add: m_def)
  have i: "beijing_day_index t = q" "beijing_ms_of_day t = m"
    by (simp_all add: beijing_day_index_def beijing_ms_of_day_def ms_per_day_def x_def q_def m_def)
  have j: "beijing_day_index (t - 300000) = (x - 300000) div 86400000"
    by (simp add: beijing_day_index_def ms_per_day_def x_def algebra_simps)
  show ?thesis
  proof (cases "m < 300000")
    case True
    have "(x - 300000) div 86400000 = q - 1"
      by (rule int_div_pos_eq [where r = "m + 86400000 - 300000"]) (use e b True in simp_all)
    then show ?thesis using True i j by simp
  next
    case False
    have "(x - 300000) div 86400000 = q"
      by (rule int_div_pos_eq [where r = "m - 300000"]) (use e b False in simp_all)
    then show ?thesis using False i j by simp
  qed
qed

lemma getDailyRefreshKey_eq:
  "getDailyRefreshKey now =
     format_day_key (civil_from_days
       (if beijing_ms_of_day now < 300000 then beijing_day_index now - 1 else beijing_day_index now))"
  using day_index_of_start [of now 1] day_index_of_start [of now 0] grace_iff [of now]
  by (simp add: getDailyRefreshKey_def getBeijingDayStart_def getBeijingDayKey_def
      getBeijingDateParts_def Let_def)

lemma getDailyRefreshKey_shift: "getDailyRefreshKey now = getBeijingDayKey (now - 300000)"
  by (simp add: getDailyRefreshKey_eq getBeijingDayKey_def getBeijingDateParts_def day_index_minus_5min)

lemma today_rule:
  "shouldRefreshPeriod B ''today'' entry now =
     (case today_entry B entry of
        None \<Rightarrow> True
      | Some (t, k) \<Rightarrow> k \<noteq> getBeijingDayKey now \<or> TODAY_REFRESH_INTERVAL_MS \<le> now - t)"
  by (auto simp: shouldRefreshPeriod_def has_data_def isTodayCacheFresh_def today_entry_def
      split: option.splits)

lemma range_rule:
  "p \<noteq> ''today'' \<Longrightarrow> shouldRefreshPeriod B p entry now =
     (case range_entry entry of None \<Rightarrow> True | Some k \<Rightarrow> k \<noteq> getDailyRefreshKey now)"
  by (auto simp: shouldRefreshPeriod_def has_data_def isRangeCacheFresh_def range_entry_def
      split: option.splits)

section \<open>C6: the staleness decision\<close>

text \<open>
  C6, as the code has it. A \<open>today\<close> entry is stale exactly when there is no usable entry,
  or its day key is not the current Beijing day key, or at least five minutes (300000 ms)
  have passed since it was computed. A \<open>week\<close> or \<open>month\<close> entry is stale exactly when
  there is no usable entry or its daily refresh key is not the current one. The current
  daily refresh key is the day key of the instant five minutes ago: in the first five
  minutes after Beijing midnight it is the key of the previous day, and from 00:05 on it
  is the key of the current day.
\<close>

theorem staleness_rules:
  "shouldRefreshPeriod B ''today'' entry now =
     (case today_entry B entry of
        None \<Rightarrow> True
      | Some (t, k) \<Rightarrow> k \<noteq> getBeijingDayKey now \<or> 300000 \<le> now - t) \<and>
   shouldRefreshPeriod B ''week'' entry now =
     (case range_entry entry of None \<Rightarrow> True | Some k \<Rightarrow> k \<noteq> getDailyRefreshKey now) \<and>
   shouldRefreshPeriod B ''month'' entry now =
     (case range_entry entry of None \<Rightarrow> True | Some k \<Rightarrow> k \<noteq> getDailyRefreshKey now) \<and>
   getDailyRefreshKey now = getBeijingDayKey (now - 300000) \<and>
   getDailyRefreshKey now =
     format_day_key (civil_from_days
       (if beijing_ms_of_day now < 300000 then beijing_day_index now - 1
        else beijing_day_index now)) \<and>
   getBeijingDayKey now = format_day_key (civil_from_days (beijing_day_index now))"
proof -
  have t: "TODAY_REFRESH_INTERVAL_MS = 300000" by (simp add: TODAY_REFRESH_INTERVAL_MS_def)
  have w: "''week'' \<noteq> ''today''" and m: "''month'' \<noteq> ''today''" by simp_all
  show ?thesis
    using today_rule [of B entry now] range_rule [OF w, of B entry now]
      range_rule [OF m, of B entry now] getDailyRefreshKey_shift [of now]
      getDailyRefreshKey_eq [of now]
    by (simp only: t getBeijingDayKey_def getBeijingDateParts_def simp_thms)
qed

lemma iso_parse_example_0255: "iso_date_parse ''2026-02-15T02:55:00.000Z'' = Some 1771124100000"
  by code_simp

lemma utc_0255: "utc_time 2026 2 15 2 55 0 = 1771124100000"
  by code_simp

lemma utc_0259: "utc_time 2026 2 15 2 59 0 = 1771124340000"
  by code_simp

lemma utc_0214_1604: "utc_time 2026 2 14 16 4 0 = 1771085040000"
  by code_simp

lemma utc_0214_1605: "utc_time 2026 2 14 16 5 0 = 1771085100000"
  by code_simp

lemma day_key_0300: "getBeijingDayKey 1771124400000 = ''2026-02-15''"
  by code_simp

lemma day_key_0259: "getBeijingDayKey 1771124340000 = ''2026-02-15''"
  by code_simp

lemma refresh_key_0004: "getDailyRefreshKey 1771085040000 = ''2026-02-14''"
  by code_simp

lemma refresh_key_0005: "getDailyRefreshKey 1771085100000 = ''2026-02-15''"
  by code_simp

lemma today_entry_example:
  "today_entry B0 (Some today_entry_0255) = Some (1771124100000, ''2026-02-15'')"
  by (simp add: today_entry_def today_entry_0255_def B0_date_parse iso_parse_example_0255)

lemma range_entry_example: "range_entry (Some week_entry_0214) = Some ''2026-02-14''"
  by (simp add: range_entry_def week_entry_0214_def)

text \<open>
  The theorem on 2026-02-15 (Beijing): an entry of \<open>today\<close> computed at 02:55:00Z is fresh
  at 02:59:00Z; an entry of \<open>week\<close> with the key of 2026-02-14 is fresh at 00:04 Beijing
  time and stale at 00:05; a missing entry is stale.
\<close>

theorem staleness_rules_witness:
  "\<not> shouldRefreshPeriod B0 ''today'' (Some today_entry_0255) (utc_time 2026 2 15 2 59 0) \<and>
   \<not> shouldRefreshPeriod B0 ''week'' (Some week_entry_0214) (utc_time 2026 2 14 16 4 0) \<and>
   shouldRefreshPeriod B0 ''week'' (Some week_entry_0214) (utc_time 2026 2 14 16 5 0) \<and>
   shouldRefreshPeriod B0 ''month'' (None :: unit cache_entry option) (utc_time 2026 2 14 16 5 0)"
proof -
  have 1: "\<not> shouldRefreshPeriod B0 ''today'' (Some today_entry_0255) 1771124340000"
    by (simp add: staleness_rules [of B0 "Some today_entry_0255" 1771124340000, THEN conjunct1]
        today_entry_example day_key_0259)
  have 2: "\<not> shouldRefreshPeriod B0 ''week'' (Some week_entry_0214) 1771085040000"
    by (simp add: staleness_rules [of B0 "Some week_entry_0214" 1771085040000, THEN conjunct2, THEN conjunct1]
        range_entry_example refresh_key_0004)
  have 3: "shouldRefreshPeriod B0 ''week'' (Some week_entry_0214) 1771085100000"
    by (simp add: staleness_rules [of B0 "Some week_entry_0214" 1771085100000, THEN conjunct2, THEN conjunct1]
        range_entry_example refresh_key_0005)
  have 4: "shouldRefreshPeriod B0 ''month'' (None :: unit cache_entry option) 1771085100000"
    by (simp add: staleness_rules [of B0 "None :: unit cache_entry option" 1771085100000,
          THEN conjunct2, THEN conjunct2, THEN conjunct1] range_entry_def)
  show ?thesis
    using 1 2 3 4 by (simp add: utc_0259 utc_0214_1604 utc_0214_1605)
qed

text \<open>
  C6 for an entry of \<open>today\<close> computed at 02:55:00Z and read at 03:00:00Z of the same Beijing
  day: the entry exists, its day key is the current one, and exactly five minutes have
  passed, which is not more than five minutes; the code reports it stale.
\<close>

theorem today_entry_stale_at_five_minutes:
  "shouldRefreshPeriod B0 ''today'' (Some today_entry_0255) (utc_time 2026 2 15 3 0 0) \<and>
   today_entry B0 (Some today_entry_0255) = Some (utc_time 2026 2 15 2 55 0, ''2026-02-15'') \<and>
   getBeijingDayKey (utc_time 2026 2 15 3 0 0) = ''2026-02-15'' \<and>
   utc_time 2026 2 15 3 0 0 - utc_time 2026 2 15 2 55 0 = 5 * 60 * 1000 \<and>
   \<not> 5 * 60 * 1000 < utc_time 2026 2 15 3 0 0 - utc_time 2026 2 15 2 55 0"
  by (simp add: today_rule today_entry_example fixed_now utc_0255 day_key_0300
      TODAY_REFRESH_INTERVAL_MS_def)

section \<open>The view data: helper lemmas\<close>

lemma length_insert_by: "length (insert_by cmp x ys) = Suc (length ys)"
  by (induction ys) auto

lemma length_sort_by: "length (sort_by cmp xs) = length xs"
  by (induction xs) (auto simp: sort_by_def length_insert_by)

lemma set_insert_by: "set (insert_by cmp x ys) = insert x (set ys)"
  by (induction ys) auto

lemma set_sort_by: "set (sort_by cmp xs) = set xs"
  by (induction xs) (auto simp: sort_by_def set_insert_by)

lemma sum_totals_with_color: "sum_totals B (map with_color ms) = sum_totals B ms"
proof -
  have "foldl (\<lambda>sum m. js_plus B sum (total m)) a (map with_color ms) =
        foldl (\<lambda>sum m. js_plus B sum (total m)) a ms" for a
    by (induction ms arbitrary: a) (simp_all add: with_color_def ModelAggregate.extend_def)
  then show ?thesis by (simp add: sum_totals_def)
qed

lemma sum_totals_with_percent: "sum_totals B (map (with_percent B w) ms) = sum_totals B ms"
proof -
  have "foldl (\<lambda>sum m. js_plus B sum (total m)) a (map (with_percent B w) ms) =
        foldl (\<lambda>sum m. js_plus B sum (total m)) a ms" for a
    by (induction ms arbitrary: a) (simp_all add: with_percent_def ModelEntry.extend_def)
  then show ?thesis by (simp add: sum_totals_def)
qed

lemma bucket_of_model:
  "to_bucket (with_percent B w (with_color m)) = model_bucket B w m"
  by (simp add: to_bucket_def with_percent_def with_color_def model_bucket_def
      ModelEntry.extend_def ModelAggregate.extend_def ModelEntry.fields_def ModelWithPercent.fields_def)

lemma generateViewData_models:
  "models (generateViewData B aggregated) = map with_color (ranked_models B aggregated)"
  by (simp add: generateViewData_def Let_def ranked_models_def positive_models_def)

lemma generateViewData_total:
  "v_total (generateViewData B aggregated) = sum_totals B (ranked_models B aggregated)"
  by (simp add: generateViewData_def Let_def ranked_models_def positive_models_def sum_totals_with_color)

lemma length_ranked: "length (ranked_models B aggregated) = length (positive_models B aggregated)"
  by (simp add: ranked_models_def length_sort_by)

lemma sum_totals_decorated:
  "sum_totals B (map (\<lambda>x. with_percent B w (with_color x)) ms) = sum_totals B ms"
  using sum_totals_with_percent [of B w "map with_color ms"] sum_totals_with_color [of B ms]
  by (simp add: comp_def)

lemma buckets_decorated:
  "map to_bucket (map (\<lambda>x. with_percent B w (with_color x)) ms) = map (model_bucket B w) ms"
  by (simp add: bucket_of_model)

lemma generateViewData_distribution:
  "distribution (generateViewData B aggregated) =
     (let ranked = ranked_models B aggregated; whole = sum_totals B ranked in
      if length ranked \<le> 5 then map (model_bucket B whole) ranked
      else map (model_bucket B whole) (take 5 ranked) @
           (if js_gt_zero B (sum_totals B (drop 5 ranked))
            then [others_bucket B whole (drop 5 ranked)] else []))"
proof -
  define ranked where "ranked = ranked_models B aggregated"
  define whole where "whole = sum_totals B ranked"
  define mwp where "mwp = map (\<lambda>x. with_percent B whole (with_color x)) ranked"
  have d: "distribution (generateViewData B aggregated) =
      (if \<not> 5 < length ranked then map to_bucket mwp
       else map to_bucket (take 5 mwp) @
            (if js_gt_zero B (sum_totals B (drop 5 mwp))
             then [\<lparr> b_name = others_label (length (drop 5 mwp)),
                     b_percent = percent_of B (sum_totals B (drop 5 mwp)) whole,
                     b_color = default_color, b_key = ''others'' \<rparr>]
             else []))"
    by (simp add: generateViewData_def Let_def ranked_def whole_def mwp_def ranked_models_def
        positive_models_def sum_totals_with_color comp_def)
  have t: "take 5 mwp = map (\<lambda>x. with_percent B whole (with_color x)) (take 5 ranked)"
    and r: "drop 5 mwp = map (\<lambda>x. with_percent B whole (with_color x)) (drop 5 ranked)"
    by (simp_all add: mwp_def take_map drop_map)
  have 1: "map to_bucket mwp = map (model_bucket B whole) ranked"
    unfolding mwp_def by (rule buckets_decorated)
  have 2: "map to_bucket (take 5 mwp) = map (model_bucket B whole) (take 5 ranked)"
    unfolding t by (rule buckets_decorated)
  have 3: "sum_totals B (drop 5 mwp) = sum_totals B (drop 5 ranked)"
    unfolding r by (rule sum_totals_decorated)
  have 4: "length (drop 5 mwp) = length (drop 5 ranked)"
    by (simp add: mwp_def)
  show ?thesis
    unfolding d 1 2 3 4
    by (simp add: Let_def ranked_def [symmetric] whole_def [symmetric] others_bucket_def not_less)
qed

section \<open>C4: the distribution buckets\<close>

text \<open>
  C4, as the code has it. The models of the view are the aggregates whose total is greater
  than 0, in rank order; \<open>modelCount\<close> is their number and \<open>isExtremeScenario\<close> is true
  exactly when there are more than 5 of them. With at most 5 such models the distribution
  is one bucket per model, in rank order, and nothing else. With more than 5 it is the
  buckets of the first 5 followed by the one synthetic bucket for the remaining models,
  and the synthetic bucket is there exactly when the summed total of the remaining models
  is greater than 0.
\<close>

theorem distribution_buckets:
  "models (generateViewData B aggregated) = map with_color (ranked_models B aggregated) \<and>
   length (ranked_models B aggregated) = length (positive_models B aggregated) \<and>
   modelCount (generateViewData B aggregated) = length (positive_models B aggregated) \<and>
   isExtremeScenario (generateViewData B aggregated) = (5 < length (positive_models B aggregated)) \<and>
   (length (positive_models B aggregated) \<le> 5 \<longrightarrow>
      distribution (generateViewData B aggregated) =
        map (model_bucket B (v_total (generateViewData B aggregated))) (ranked_models B aggregated)) \<and>
   (5 < length (positive_models B aggregated) \<longrightarrow>
      distribution (generateViewData B aggregated) =
        map (model_bucket B (v_total (generateViewData B aggregated))) (take 5 (ranked_models B aggregated)) @
        (if js_gt_zero B (sum_totals B (drop 5 (ranked_models B aggregated)))
         then [others_bucket B (v_total (generateViewData B aggregated)) (drop 5 (ranked_models B aggregated))]
         else []))"
proof -
  have c: "modelCount (generateViewData B aggregated) = length (positive_models B aggregated)"
    by (simp add: generateViewData_def Let_def length_sort_by positive_models_def)
  have e: "isExtremeScenario (generateViewData B aggregated) = (5 < length (positive_models B aggregated))"
    by (simp add: generateViewData_def Let_def length_sort_by positive_models_def)
  show ?thesis
    using c e generateViewData_models [of B aggregated] length_ranked [of B aggregated]
    by (simp add: generateViewData_distribution generateViewData_total Let_def)
qed


lemma B0_locale_compare: "locale_compare B0 = code_compare"
  by (simp add: B0_def example_builtins_def)

lemma to_number_num: "to_number B (JNum n) = n"
  by simp

lemma ranked_seven:
  "ranked_models B0 (agg_of [(''model-1'', 700), (''model-2'', 600), (''model-3'', 500),
      (''model-4'', 400), (''model-5'', 300), (''model-6'', 200), (''model-7'', 100)]) =
   map snd (agg_of [(''model-1'', 700), (''model-2'', 600), (''model-3'', 500),
      (''model-4'', 400), (''model-5'', 300), (''model-6'', 200), (''model-7'', 100)])"
  by (simp add: ranked_models_def positive_models_def agg_of_def js_gt_zero_def sort_by_def
      model_compare_def num_sub_def clip_small)

lemma ranked_three:
  "ranked_models B0 (agg_of [(''model-c'', 20), (''model-a'', 100), (''model-b'', 80)]) =
   map snd (agg_of [(''model-a'', 100), (''model-b'', 80), (''model-c'', 20)])"
  by (simp add: ranked_models_def positive_models_def agg_of_def js_gt_zero_def sort_by_def
      model_compare_def num_sub_def clip_small)

text \<open>
  The theorem at the seven models of test UT-BE-AGG-03 and at three models given out of
  rank order.
\<close>

theorem distribution_buckets_witness:
  "length (positive_models B0 (agg_of [(''model-1'', 700), (''model-2'', 600), (''model-3'', 500),
      (''model-4'', 400), (''model-5'', 300), (''model-6'', 200), (''model-7'', 100)])) = 7 \<and>
   isExtremeScenario (generateViewData B0 (agg_of [(''model-1'', 700), (''model-2'', 600),
      (''model-3'', 500), (''model-4'', 400), (''model-5'', 300), (''model-6'', 200),
      (''model-7'', 100)])) \<and>
   map b_name (distribution (generateViewData B0 (agg_of [(''model-1'', 700), (''model-2'', 600),
      (''model-3'', 500), (''model-4'', 400), (''model-5'', 300), (''model-6'', 200),
      (''model-7'', 100)]))) =
     [''model-1'', ''model-2'', ''model-3'', ''model-4'', ''model-5'', others_label 2] \<and>
   length (positive_models B0 (agg_of [(''model-c'', 20), (''model-a'', 100), (''model-b'', 80)])) = 3 \<and>
   \<not> isExtremeScenario (generateViewData B0
      (agg_of [(''model-c'', 20), (''model-a'', 100), (''model-b'', 80)])) \<and>
   map b_name (distribution (generateViewData B0
      (agg_of [(''model-c'', 20), (''model-a'', 100), (''model-b'', 80)]))) =
     [''model-a'', ''model-b'', ''model-c'']"
proof -
  let ?a7 = "agg_of [(''model-1'', 700), (''model-2'', 600), (''model-3'', 500),
      (''model-4'', 400), (''model-5'', 300), (''model-6'', 200), (''model-7'', 100)]"
  let ?a3 = "agg_of [(''model-c'', 20), (''model-a'', 100), (''model-b'', 80)]"
  have p7: "length (positive_models B0 ?a7) = 7"
    by (simp add: positive_models_def agg_of_def js_gt_zero_def)
  have p3: "length (positive_models B0 ?a3) = 3"
    by (simp add: positive_models_def agg_of_def js_gt_zero_def)
  note t7 = distribution_buckets [of B0 ?a7]
  note t3 = distribution_buckets [of B0 ?a3]
  have e7: "isExtremeScenario (generateViewData B0 ?a7)"
    using t7 p7 by simp
  have e3: "\<not> isExtremeScenario (generateViewData B0 ?a3)"
    using t3 p3 by simp
  have d7: "distribution (generateViewData B0 ?a7) =
        map (model_bucket B0 (v_total (generateViewData B0 ?a7))) (take 5 (ranked_models B0 ?a7)) @
        (if js_gt_zero B0 (sum_totals B0 (drop 5 (ranked_models B0 ?a7)))
         then [others_bucket B0 (v_total (generateViewData B0 ?a7)) (drop 5 (ranked_models B0 ?a7))]
         else [])"
    using t7 p7 by simp
  have d3: "distribution (generateViewData B0 ?a3) =
        map (model_bucket B0 (v_total (generateViewData B0 ?a3))) (ranked_models B0 ?a3)"
    using t3 p3 by simp
  have s7: "js_gt_zero B0 (sum_totals B0 (drop 5 (ranked_models B0 ?a7)))"
    unfolding ranked_seven
    by (simp add: agg_of_def sum_totals_def js_plus_def js_gt_zero_def clip_small)
  have n7: "map b_name (distribution (generateViewData B0 ?a7)) =
     [''model-1'', ''model-2'', ''model-3'', ''model-4'', ''model-5'', others_label 2]"
    unfolding d7 using s7 unfolding ranked_seven
    by (simp add: agg_of_def model_bucket_def others_bucket_def numeral_2_eq_2)
  have n3: "map b_name (distribution (generateViewData B0 ?a3)) = [''model-a'', ''model-b'', ''model-c'']"
    unfolding d3 ranked_three by (simp add: agg_of_def model_bucket_def)
  show ?thesis using p7 e7 n7 p3 e3 n3 by simp
qed

lemma iso_parse_example_0100: "iso_date_parse ''2026-02-15T01:00:00+08:00'' = Some 1771088400000"
  by code_simp

lemma parse_negative: "parseClaudeLog B0 ''claude-negative'' =
   Returned (Some \<lparr> timestamp = Some (DateAt 1771088400000), model = ''sonnet'',
     input = JNum (Fin (- 5)), outputTokens = JNum (Fin 0), cacheRead = JNum (Fin 0),
     cacheCreate = JNum (Fin 0) \<rparr>)"
  by (simp add: parseClaudeLog_def parseClaudeLog_body_def catch_null_def json_parse_or_throw_def
      B0_json_parse example_lines_def and_then_def prop_or_prop_def date_or_null_def js_or_def
      new_Date_def B0_date_parse iso_parse_example_0100
      normalizeModelName_def toLowerCase_def to_lower_char_def upper_to_lower_def)

lemma scan_negative:
  "scanClaudeLogs B0 (Some (mock_scanner [negative_file] [])) 1771084800000 1771124400000 =
   [\<lparr> timestamp = Some (DateAt 1771088400000), model = ''sonnet'',
     input = JNum (Fin (- 5)), outputTokens = JNum (Fin 0), cacheRead = JNum (Fin 0),
     cacheCreate = JNum (Fin 0) \<rparr>]"
  by (simp add: scanClaudeLogs_def mock_scanner_def negative_file_def parse_negative)

lemma aggregate_negative:
  "aggregateByModel B0
     (scanClaudeLogs B0 (Some (mock_scanner [negative_file] [])) 1771084800000 1771124400000) =
   [(''sonnet'', \<lparr> name = ''sonnet'', m_input = JNum (Fin (- 5)), m_output = JNum (Fin 0),
       m_cacheRead = JNum (Fin 0), m_cacheCreate = JNum (Fin 0), total = JNum (Fin (- 5)),
       count = 1 \<rparr>)]"
  by (simp add: scan_negative aggregateByModel_def new_aggregate_def add_record_def js_plus_def
      js_or_def calculateTotalTokens_def clip_small Let_def)

text \<open>
  C4 at one Claude line whose \<open>input_tokens\<close> is \<open>-5\<close>, in the window of \<open>today\<close> at
  2026-02-15T03:00:00Z. One model has a total that is not zero, which is at most 5 models,
  and the view shows no model and no bucket: the filter keeps totals greater than 0.
\<close>

theorem negative_total_model_not_shown:
  "nonzero_models (aggregateByModel B0
     (scanClaudeLogs B0 (Some (mock_scanner [negative_file] [])) 1771084800000 1771124400000)) =
   [\<lparr> name = ''sonnet'', m_input = JNum (Fin (- 5)), m_output = JNum (Fin 0),
      m_cacheRead = JNum (Fin 0), m_cacheCreate = JNum (Fin 0), total = JNum (Fin (- 5)),
      count = 1 \<rparr>] \<and>
   aggregateUsage B0 (Some (mock_scanner [negative_file] [])) 1771124400000 ''today'' =
     Success \<lparr> view = empty_view, period = ''today'', startTime = 1771084800000,
               endTime = 1771124400000, recordCount = 1 \<rparr>"
proof -
  have "generateViewData B0 [(''sonnet'', \<lparr> name = ''sonnet'', m_input = JNum (Fin (- 5)),
       m_output = JNum (Fin 0), m_cacheRead = JNum (Fin 0), m_cacheCreate = JNum (Fin 0),
       total = JNum (Fin (- 5)), count = 1 \<rparr>)] = empty_view"
    by (simp add: generateViewData_def js_gt_zero_def sort_by_def sum_totals_def empty_view_def)
  then show ?thesis
    using aggregate_negative
    by (simp add: nonzero_models_def aggregateUsage_def window_today scan_negative scan_codex_empty)
qed

section \<open>The sort of the models: helper lemmas\<close>

lemma clip_sign: "num_lt (Fin 0) (clip r) = (0 < r)" "num_truthy (clip r) = (r \<noteq> 0)"
  using dbl_overflow_pos by (auto simp: clip_def)

lemma compare_ranked:
  assumes "shown B a" and "shown B b"
  shows "(\<not> num_lt (Fin 0) (model_compare B a b)) = ranked_before B a b"
proof -
  have pa: "num_lt (Fin 0) (to_number B (total a))" and pb: "num_lt (Fin 0) (to_number B (total b))"
    using assms by (simp_all add: shown_def js_gt_zero_def)
  show ?thesis
  proof (cases "to_number B (total a)")
    case NaN then show ?thesis using pa by simp
  next
    case NInf then show ?thesis using pa by simp
  next
    case PInf
    show ?thesis
    proof (cases "to_number B (total b)")
      case (Fin y)
      then show ?thesis using PInf by (simp add: model_compare_def ranked_before_def num_sub_def)
    qed (use pb PInf in \<open>auto simp: model_compare_def ranked_before_def num_sub_def\<close>)
  next
    case (Fin x)
    show ?thesis
    proof (cases "to_number B (total b)")
      case (Fin y)
      then show ?thesis using \<open>to_number B (total a) = Fin x\<close>
        by (auto simp: model_compare_def ranked_before_def num_sub_def clip_sign Let_def)
    qed (use pb Fin in \<open>simp_all add: model_compare_def ranked_before_def num_sub_def\<close>)
  qed
qed

lemma ranked_before_total:
  assumes "consistent_comparator (locale_compare B)" and "shown B a" and "shown B b"
  shows "ranked_before B a b \<or> ranked_before B b a"
proof -
  have pa: "num_lt (Fin 0) (to_number B (total a))" and pb: "num_lt (Fin 0) (to_number B (total b))"
    using assms by (simp_all add: shown_def js_gt_zero_def)
  have lc: "locale_compare B (name a) (name b) \<le> 0 \<or> locale_compare B (name b) (name a) \<le> 0"
    using assms(1) by (simp add: consistent_comparator_def)
  show ?thesis
    using pa pb lc
    by (cases "to_number B (total a)"; cases "to_number B (total b)")
       (auto simp: ranked_before_def)
qed

lemma ranked_before_trans:
  assumes "consistent_comparator (locale_compare B)"
    and "shown B a" and "shown B b" and "shown B c"
    and "ranked_before B a b" and "ranked_before B b c"
  shows "ranked_before B a c"
proof -
  have lc: "locale_compare B (name a) (name b) \<le> 0 \<Longrightarrow> locale_compare B (name b) (name c) \<le> 0
      \<Longrightarrow> locale_compare B (name a) (name c) \<le> 0"
    using assms(1) unfolding consistent_comparator_def by blast
  show ?thesis
    using assms(5,6) lc
    by (cases "to_number B (total a)"; cases "to_number B (total b)"; cases "to_number B (total c)")
       (auto simp: ranked_before_def)
qed

lemma sorted_insert_by:
  assumes link: "\<And>a b. P a \<Longrightarrow> P b \<Longrightarrow> (\<not> num_lt (Fin 0) (cmp a b)) = R a b"
    and total: "\<And>a b. P a \<Longrightarrow> P b \<Longrightarrow> R a b \<or> R b a"
    and trans: "\<And>a b c. P a \<Longrightarrow> P b \<Longrightarrow> P c \<Longrightarrow> R a b \<Longrightarrow> R b c \<Longrightarrow> R a c"
    and "P x" and "\<forall>y\<in>set ys. P y" and "sorted_wrt R ys"
  shows "sorted_wrt R (insert_by cmp x ys)"
  using assms(5,6)
proof (induction ys)
  case Nil
  show ?case by simp
next
  case (Cons y ys)
  have py: "P y" and pys: "\<forall>z\<in>set ys. P z" using Cons.prems(1) by simp_all
  have sy: "\<forall>z\<in>set ys. R y z" and ss: "sorted_wrt R ys" using Cons.prems(2) by simp_all
  show ?case
  proof (cases "num_lt (Fin 0) (cmp x y)")
    case True
    then have "\<not> R x y" using link [OF \<open>P x\<close> py] by simp
    then have "R y x" using total [OF \<open>P x\<close> py] by blast
    moreover have "sorted_wrt R (insert_by cmp x ys)" using Cons.IH pys ss by simp
    ultimately show ?thesis using True sy by (simp add: set_insert_by)
  next
    case False
    then have xy: "R x y" using link [OF \<open>P x\<close> py] by simp
    have "\<forall>z\<in>set ys. R x z"
      using trans [OF \<open>P x\<close> py _ xy] pys sy by blast
    then show ?thesis using False xy Cons.prems(2) by simp
  qed
qed

lemma sorted_sort_by:
  assumes link: "\<And>a b. P a \<Longrightarrow> P b \<Longrightarrow> (\<not> num_lt (Fin 0) (cmp a b)) = R a b"
    and total: "\<And>a b. P a \<Longrightarrow> P b \<Longrightarrow> R a b \<or> R b a"
    and trans: "\<And>a b c. P a \<Longrightarrow> P b \<Longrightarrow> P c \<Longrightarrow> R a b \<Longrightarrow> R b c \<Longrightarrow> R a c"
    and "\<forall>x\<in>set xs. P x"
  shows "sorted_wrt R (sort_by cmp xs)"
  using assms(4)
proof (induction xs)
  case Nil
  show ?case by (simp add: sort_by_def)
next
  case (Cons x xs)
  have "sorted_wrt R (insert_by cmp x (sort_by cmp xs))"
    by (rule sorted_insert_by [where P = P, OF link total trans])
       (use Cons in \<open>simp_all add: set_sort_by\<close>)
  then show ?case by (simp add: sort_by_def)
qed

lemma ranked_models_sorted:
  assumes "consistent_comparator (locale_compare B)"
  shows "sorted_wrt (ranked_before B) (ranked_models B aggregated)"
  unfolding ranked_models_def
proof (rule sorted_sort_by [where P = "shown B"])
  fix a b :: ModelAggregate
  assume "shown B a" and "shown B b"
  then show "(\<not> num_lt (Fin 0) (model_compare B a b)) = ranked_before B a b"
    by (rule compare_ranked)
next
  fix a b :: ModelAggregate
  assume "shown B a" and "shown B b"
  with assms show "ranked_before B a b \<or> ranked_before B b a"
    by (rule ranked_before_total)
next
  fix a b c :: ModelAggregate
  assume "shown B a" and "shown B b" and "shown B c" and "ranked_before B a b"
    and "ranked_before B b c"
  with assms show "ranked_before B a c"
    by (rule ranked_before_trans)
next
  show "\<forall>x\<in>set (positive_models B aggregated). shown B x"
    by (simp add: positive_models_def shown_def)
qed

lemma ranked_before_with_color:
  "ranked_before B (with_color a) (with_color b) = ranked_before B a b"
  by (simp add: ranked_before_def with_color_def ModelAggregate.extend_def)


lemma ranked_before_descending:
  "ranked_before B a b \<Longrightarrow> \<not> num_lt (to_number B (total a)) (to_number B (total b))"
  using num_lt_not_eq [of "to_number B (total b)" "to_number B (total a)"]
  by (auto simp: ranked_before_def)

lemma ranked_before_tie:
  "ranked_before B a b \<Longrightarrow> to_number B (total a) = to_number B (total b) \<Longrightarrow>
     locale_compare B (name a) (name b) \<le> 0"
  by (auto simp: ranked_before_def)

section \<open>C5: the order of the models\<close>

text \<open>
  C5. Let \<open>localeCompare\<close> order the names (any two names compare one way or the other,
  transitively). Then the models of the view are in rank order: a model never stands
  before a model with a greater total, and of two models with equal totals the one whose
  name compares first (or equal) stands first. The same holds for the models of every
  successful result of \<open>aggregateUsage\<close>. The view is a function of the aggregates and the
  built-ins, so equal inputs give the same order on every run.
\<close>

theorem models_in_rank_order:
  assumes "consistent_comparator (locale_compare B)"
  shows "sorted_wrt (ranked_before B) (models (generateViewData B aggregated)) \<and>
         (\<forall>i j. i < j \<and> j < length (models (generateViewData B aggregated)) \<longrightarrow>
            \<not> num_lt (to_number B (total (models (generateViewData B aggregated) ! i)))
                     (to_number B (total (models (generateViewData B aggregated) ! j))) \<and>
            (to_number B (total (models (generateViewData B aggregated) ! i)) =
             to_number B (total (models (generateViewData B aggregated) ! j)) \<longrightarrow>
               locale_compare B (name (models (generateViewData B aggregated) ! i))
                                (name (models (generateViewData B aggregated) ! j)) \<le> 0)) \<and>
         (\<forall>d. aggregateUsage B api now p = Success d \<longrightarrow>
            sorted_wrt (ranked_before B) (models (view d)))"
proof -
  have s: "sorted_wrt (ranked_before B) (models (generateViewData B agg))" for agg
    using ranked_models_sorted [OF assms, of agg]
    by (simp add: generateViewData_models sorted_wrt_map ranked_before_with_color)
  have n: "ranked_before B (models (generateViewData B aggregated) ! i)
             (models (generateViewData B aggregated) ! j)"
    if "i < j" and "j < length (models (generateViewData B aggregated))" for i j
    using s [of aggregated] that by (simp add: sorted_wrt_iff_nth_less)
  have a: "sorted_wrt (ranked_before B) (models (view d))"
    if "aggregateUsage B api now p = Success d" for d
  proof -
    obtain start end' where w: "getBeijingTimeWindow now p = (start, end')"
      by (cases "getBeijingTimeWindow now p")
    have "view d = generateViewData B (aggregateByModel B
            (scanClaudeLogs B api start end' @ scanCodexLogs B api start end'))"
      using that by (auto simp: aggregateUsage_def w Let_def split: if_splits)
    then show ?thesis using s by simp
  qed
  show ?thesis
    using s [of aggregated] n a ranked_before_descending ranked_before_tie by blast
qed

lemma code_compare_total: "code_compare a b \<le> 0 \<or> code_compare b a \<le> 0"
  by (induction a b rule: code_compare.induct) auto

lemma code_compare_trans:
  "code_compare a b \<le> 0 \<Longrightarrow> code_compare b c \<le> 0 \<Longrightarrow> code_compare a c \<le> 0"
proof (induction a arbitrary: b c)
  case Nil
  then show ?case by (cases c) auto
next
  case (Cons x xs)
  then show ?case
    by (cases b; cases c) (auto split: if_splits)
qed

lemma consistent_code_compare: "consistent_comparator code_compare"
  unfolding consistent_comparator_def
  using code_compare_total code_compare_trans by blast

lemma ranked_ties:
  "ranked_models B0 (agg_of [(''zeta'', 10), (''alpha'', 10), (''beta'', 10)]) =
   map snd (agg_of [(''alpha'', 10), (''beta'', 10), (''zeta'', 10)])"
  by (simp add: ranked_models_def positive_models_def agg_of_def js_gt_zero_def sort_by_def
      model_compare_def num_sub_def clip_small B0_locale_compare)

text \<open>
  The theorem at the three models of test UT-BE-AGG-04, which all have the total 10 and
  arrive as \<open>zeta\<close>, \<open>alpha\<close>, \<open>beta\<close>.
\<close>

theorem models_in_rank_order_witness:
  "consistent_comparator (locale_compare B0) \<and>
   sorted_wrt (ranked_before B0)
     (models (generateViewData B0 (agg_of [(''zeta'', 10), (''alpha'', 10), (''beta'', 10)]))) \<and>
   map name (models (generateViewData B0 (agg_of [(''zeta'', 10), (''alpha'', 10), (''beta'', 10)]))) =
     [''alpha'', ''beta'', ''zeta'']"
proof -
  have c: "consistent_comparator (locale_compare B0)"
    by (simp add: B0_locale_compare consistent_code_compare)
  have n: "map name (models (generateViewData B0 (agg_of [(''zeta'', 10), (''alpha'', 10), (''beta'', 10)]))) =
     [''alpha'', ''beta'', ''zeta'']"
    unfolding generateViewData_models ranked_ties
    by (simp add: agg_of_def with_color_def ModelAggregate.extend_def)
  show ?thesis
    using models_in_rank_order [OF c, of "agg_of [(''zeta'', 10), (''alpha'', 10), (''beta'', 10)]"] c n
    by blast
qed

end
